theory Spec2Isabelle
  imports Complex_Main "HOL-Library.Word" "HOL-Library.Char_ord" "HOL-Library.List_Lexorder"
    "HOL-Library.AList"
begin

unbundle bit_operations_syntax

section \<open>The fuzz runner of lz4-java (scripts/fuzz\_runner.py)\<close>

text \<open>
  Python values are modelled as follows. A \<open>str\<close> and a \<open>bytes\<close> value are a
  \<^typ>\<open>string\<close>; a \<open>Path\<close> is the string of its text; \<open>int\<close> is \<^typ>\<open>int\<close>;
  a timestamp of \<open>time.time()\<close> is a \<^typ>\<open>real\<close> handed in by the environment;
  \<open>Optional[t]\<close> is \<^typ>\<open>'a option\<close>; a \<open>dict\<close> is an association list in insertion
  order. An exception is a value of type \<open>exn\<close>.
\<close>

subsection \<open>sanitize\_for\_path\<close>

text \<open>The character class \<open>[A-Za-z0-9._-]\<close> of the regular expression.\<close>

definition safe_char :: "char \<Rightarrow> bool" where
  "safe_char c =
     ((CHR ''A'' \<le> c \<and> c \<le> CHR ''Z'') \<or> (CHR ''a'' \<le> c \<and> c \<le> CHR ''z'') \<or>
      (CHR ''0'' \<le> c \<and> c \<le> CHR ''9'') \<or> c = CHR ''.'' \<or> c = CHR ''_'' \<or> c = CHR ''-'')"

text \<open>
  \<open>re.sub(r"[^A-Za-z0-9._-]+", "_", s)\<close>: every maximal run of characters outside the
  class is replaced by one underscore. The flag says whether the previous character
  belonged to a run that has been replaced already. A code point beyond ASCII is a run
  of bytes outside the class in UTF-8, so the byte string and the code-point string
  have the same image.
\<close>

fun re_sub_run :: "bool \<Rightarrow> string \<Rightarrow> string" where
  "re_sub_run in_run [] = []"
| "re_sub_run in_run (c # cs) =
     (if safe_char c then c # re_sub_run False cs
      else if in_run then re_sub_run True cs
      else CHR ''_'' # re_sub_run True cs)"

definition re_sub_unsafe :: "string \<Rightarrow> string" where
  "re_sub_unsafe s = re_sub_run False s"

text \<open>
  \<open>hashlib.sha1(b).hexdigest()\<close>, the library function the long branch calls, after
  FIPS 180-4: the message is padded to a multiple of 64 bytes, each block is expanded to
  eighty 32-bit words and folded into five chaining words.
\<close>

definition sha1_pad :: "8 word list \<Rightarrow> 8 word list" where
  "sha1_pad m =
     (let l = length m; k = (119 - l mod 64) mod 64
      in m @ [0x80] @ replicate k 0 @
         map (\<lambda>i. (ucast (drop_bit (8 * (7 - i)) (word_of_nat (8 * l) :: 64 word)) :: 8 word))
             [0..<8])"

fun be32 :: "8 word list \<Rightarrow> 32 word list" where
  "be32 (a # b # c # d # rest) =
     (push_bit 24 (ucast a) OR push_bit 16 (ucast b) OR push_bit 8 (ucast c) OR ucast d) # be32 rest"
| "be32 _ = []"

fun sha1_expand :: "nat \<Rightarrow> 32 word list \<Rightarrow> 32 word list" where
  "sha1_expand 0 w = w"
| "sha1_expand (Suc n) w =
     (let t = length w
      in sha1_expand n
           (w @ [word_rotl 1 (w ! (t - 3) XOR w ! (t - 8) XOR w ! (t - 14) XOR w ! (t - 16))]))"

type_synonym sha1_state = "32 word \<times> 32 word \<times> 32 word \<times> 32 word \<times> 32 word"

definition sha1_f :: "nat \<Rightarrow> 32 word \<Rightarrow> 32 word \<Rightarrow> 32 word \<Rightarrow> 32 word" where
  "sha1_f t b c d =
     (if t < 20 then (b AND c) OR (NOT b AND d)
      else if t < 40 then b XOR c XOR d
      else if t < 60 then (b AND c) OR (b AND d) OR (c AND d)
      else b XOR c XOR d)"

definition sha1_k :: "nat \<Rightarrow> 32 word" where
  "sha1_k t =
     (if t < 20 then 0x5A827999 else if t < 40 then 0x6ED9EBA1
      else if t < 60 then 0x8F1BBCDC else 0xCA62C1D6)"

fun sha1_rounds :: "nat \<Rightarrow> 32 word list \<Rightarrow> sha1_state \<Rightarrow> sha1_state" where
  "sha1_rounds t [] s = s"
| "sha1_rounds t (w # ws) (a, b, c, d, e) =
     sha1_rounds (Suc t) ws
       (word_rotl 5 a + sha1_f t b c d + e + sha1_k t + w, a, word_rotl 30 b, c, d)"

definition sha1_block :: "sha1_state \<Rightarrow> 8 word list \<Rightarrow> sha1_state" where
  "sha1_block h blk =
     (case h of (h0, h1, h2, h3, h4) \<Rightarrow>
        (case sha1_rounds 0 (sha1_expand 64 (be32 blk)) h of (a, b, c, d, e) \<Rightarrow>
           (h0 + a, h1 + b, h2 + c, h3 + d, h4 + e)))"

fun sha1_blocks :: "nat \<Rightarrow> sha1_state \<Rightarrow> 8 word list \<Rightarrow> sha1_state" where
  "sha1_blocks 0 h bs = h"
| "sha1_blocks (Suc n) h bs = sha1_blocks n (sha1_block h (take 64 bs)) (drop 64 bs)"

definition sha1 :: "8 word list \<Rightarrow> sha1_state" where
  "sha1 m =
     (let p = sha1_pad m
      in sha1_blocks (length p div 64)
           (0x67452301, 0xEFCDAB89, 0x98BADCFE, 0x10325476, 0xC3D2E1F0) p)"

definition hex_digit :: "nat \<Rightarrow> char" where
  "hex_digit n = ''0123456789abcdef'' ! n"

definition hex32 :: "32 word \<Rightarrow> string" where
  "hex32 w = map (\<lambda>i. hex_digit (unat (drop_bit (4 * (7 - i)) w AND 0xF))) [0..<8]"

definition sha1_hexdigest :: "string \<Rightarrow> string" where
  "sha1_hexdigest s =
     (case sha1 (map (\<lambda>c. word_of_nat (of_char c)) s) of (h0, h1, h2, h3, h4) \<Rightarrow>
        hex32 h0 @ hex32 h1 @ hex32 h2 @ hex32 h3 @ hex32 h4)"

definition sanitize_for_path :: "string \<Rightarrow> string" where
  "sanitize_for_path s =
     (let safe = re_sub_unsafe s
      in if length safe > 150
         then take 120 safe @ ''_'' @ take 8 (sha1_hexdigest safe)
         else safe)"

subsection \<open>Workspace isolation: the exclusion callback and the tree copy\<close>

definition startswith :: "string \<Rightarrow> string \<Rightarrow> bool" where
  "startswith s p = (take (length p) s = p)"

text \<open>
  The callback \<open>_ignore(dir, names)\<close> of \<open>run_job\<close>. Python's \<open>or\<close> between the two
  sets yields the first one when it is not empty and the second one otherwise.
\<close>

definition ignore :: "string \<Rightarrow> string list \<Rightarrow> string set" where
  "ignore dir names =
     (let fixed = set [n \<leftarrow> names. n \<in> set [''.git'', ''.idea'', ''target'', ''fuzz-out'']]
      in if fixed \<noteq> {} then fixed
         else set [n \<leftarrow> names. startswith n ''hs_err_pid'' \<or> startswith n ''crash-''])"

text \<open>A directory tree: a file, or a directory with its entries.\<close>

datatype entry = File string | Dir string "entry list"

fun entry_name :: "entry \<Rightarrow> string" where
  "entry_name (File n) = n"
| "entry_name (Dir n es) = n"

definition path_join :: "string \<Rightarrow> string \<Rightarrow> string" where
  "path_join p q = p @ ''/'' @ q"

text \<open>
  \<open>shutil.copytree(src, dst, ignore=f)\<close>, the library function, as the list of copied
  entries: in every directory the callback receives the directory's path and the names
  of its entries, the entries it returns are skipped, and subdirectories are copied the
  same way.
\<close>

fun copy_entry :: "(string \<Rightarrow> string list \<Rightarrow> string set) \<Rightarrow> string \<Rightarrow> entry \<Rightarrow> entry" where
  "copy_entry f parent (File n) = File n"
| "copy_entry f parent (Dir n es) =
     Dir n (map (copy_entry f (path_join parent n))
              [e \<leftarrow> es. entry_name e \<notin> f (path_join parent n) (map entry_name es)])"

definition copytree :: "(string \<Rightarrow> string list \<Rightarrow> string set) \<Rightarrow> string \<Rightarrow> entry list \<Rightarrow> entry list" where
  "copytree f src es =
     map (copy_entry f src) [e \<leftarrow> es. entry_name e \<notin> f src (map entry_name es)]"

text \<open>Every name that occurs in a tree, at any depth.\<close>

fun names_of :: "entry \<Rightarrow> string list" where
  "names_of (File n) = [n]"
| "names_of (Dir n es) = n # concat (map names_of es)"

text \<open>The names the claim wants excluded from the copy.\<close>

definition excluded_name :: "string \<Rightarrow> bool" where
  "excluded_name n =
     (n \<in> set [''.git'', ''.idea'', ''target'', ''fuzz-out''] \<or>
      startswith n ''hs_err_pid'' \<or> startswith n ''crash-'')"

subsection \<open>The data model\<close>

record FuzzExecution =
  execution_id :: string
  test_spec :: string
  surefire_version :: string
  profile_id :: string

text \<open>\<open>test_spec.split("#", 1)\<close>: the text before the first \<open>#\<close> and, if there is one, the text after it.\<close>

definition split_hash :: "string \<Rightarrow> string list" where
  "split_hash s =
     (if CHR ''#'' \<in> set s
      then [takeWhile (\<lambda>c. c \<noteq> CHR ''#'') s, tl (dropWhile (\<lambda>c. c \<noteq> CHR ''#'') s)]
      else [s])"

definition test_class :: "FuzzExecution \<Rightarrow> string option" where
  "test_class e = (case split_hash (test_spec e) of [] \<Rightarrow> None | p # _ \<Rightarrow> Some p)"

definition test_method :: "FuzzExecution \<Rightarrow> string option" where
  "test_method e = (case split_hash (test_spec e) of [_, m] \<Rightarrow> Some m | _ \<Rightarrow> None)"

record JobResult =
  status :: string
  execution :: FuzzExecution
  build_dir :: string
  findings_dir :: string
  log_path :: string
  start_time :: "real option"
  end_time :: "real option"
  exit_code :: "int option"
  command :: "string list option"
  last_lines :: "string list"
  surefire_report_dir :: "string option"

text \<open>
  Exceptions. \<open>CancelledError\<close> derives from \<open>BaseException\<close>, so \<open>except Exception\<close>
  does not catch it; the others derive from \<open>Exception\<close>.
\<close>

datatype exn = OSError | FileNotFoundError | ValueError | KeyError | CancelledError

definition is_Exception :: "exn \<Rightarrow> bool" where
  "is_Exception e = (e \<noteq> CancelledError)"

text \<open>
  What one external process does, as the environment decides it: either it cannot be
  spawned (\<open>create_subprocess_exec\<close> raises), or it starts at a time, emits lines, and
  then exits with a code at a time, or an exception reaches the coroutine while it waits
  for the process (an I/O error, or the cancellation of the task). The lines are the
  output of the process cut after each newline; what \<open>readline\<close> makes of a line that
  is too long is part of \<open>stream_process\<close> below.
\<close>

datatype proc_end = Exits int real | Raises exn

datatype proc_run = SpawnRaises exn | Runs real "string list" proc_end

text \<open>
  The part of the file system one job touches: whether its directory
  \<open>out_dir/<id>\<close> exists, its working copy \<open>out_dir/<id>/work\<close> if that exists, and
  the chunks written to its \<open>build.log\<close>.
\<close>

record files =
  job_dir :: bool
  work :: "entry list option"
  build_log :: "string list"

text \<open>
  The state a job's coroutine works on: its \<open>JobResult\<close> object and its files. Two
  more fields record what the claims speak about: \<open>spawned\<close> lists the processes spawned
  (argument vector, working directory, environment), and \<open>status_trace\<close> lists every
  value assigned to \<open>result.status\<close>, in order.
\<close>

record job_state =
  result :: JobResult
  fs :: files
  spawned :: "(string list \<times> string \<times> (string \<rightharpoonup> string)) list"
  status_trace :: "string list"

definition set_status :: "string \<Rightarrow> job_state \<Rightarrow> job_state" where
  "set_status v s = s\<lparr>result := (result s)\<lparr>status := v\<rparr>, status_trace := status_trace s @ [v]\<rparr>"

subsection \<open>stream\_process\<close>

text \<open>
  \<open>str.rstrip()\<close> removes trailing whitespace. The white-space characters below
  code point 256 are the ones listed.
\<close>

definition is_space :: "char \<Rightarrow> bool" where
  "is_space c = ((of_char c :: nat) \<in> set [9, 10, 11, 12, 13, 28, 29, 30, 31, 32, 133, 160])"

definition rstrip :: "string \<Rightarrow> string" where
  "rstrip s = rev (dropWhile is_space (rev s))"

definition tail_max :: nat where
  "tail_max = 8"

text \<open>
  \<open>proc.stdout.readline()\<close> reads from a stream created with the default limit of
  \<open>2 ** 16\<close> bytes: for a line with more bytes than that before its newline it raises
  \<open>ValueError\<close> instead of returning the line.
\<close>

definition line_limit :: nat where
  "line_limit = 65536"

definition over_limit :: "string \<Rightarrow> bool" where
  "over_limit line = (line_limit < length (takeWhile (\<lambda>c. c \<noteq> CHR 0x0A) line))"

text \<open>
  The read loop of \<open>stream_process\<close> over the lines the process emits, on the local
  list \<open>last_lines\<close> and the job's state. \<open>readline\<close> raises for a line over the limit,
  which ends the loop with the exception. Otherwise the line is written to the log, its
  decoded and stripped text is appended to the tail, the oldest line is popped when the
  tail holds more than \<open>tail_max\<close>, and a copy of the tail is stored in the result.
  The list ends where \<open>readline\<close> returns the empty bytes of the end of the stream.
  \<open>dec\<close> stands for \<open>bytes.decode(errors="replace")\<close>.
\<close>

fun read_loop ::
  "(string \<Rightarrow> string) \<Rightarrow> string list \<Rightarrow> string list \<times> job_state
     \<Rightarrow> exn option \<times> string list \<times> job_state" where
  "read_loop dec [] (tail, s) = (None, tail, s)"
| "read_loop dec (line # rest) (tail, s) =
     (if over_limit line then (Some ValueError, tail, s)
      else
        (let s1 = s\<lparr>fs := (fs s)\<lparr>build_log := build_log (fs s) @ [line]\<rparr>\<rparr>;
             sline = rstrip (dec line);
             tail1 = tail @ [sline];
             tail2 = (if length tail1 > tail_max then tl tail1 else tail1)
         in read_loop dec rest (tail2, s1\<lparr>result := (result s1)\<lparr>last_lines := tail2\<rparr>\<rparr>)))"

text \<open>
  \<open>stream_process(cmd, cwd, env, log_file, result)\<close>. It returns the exception that
  leaves it, if any, and the state. The log's directory is made and the log is opened
  with mode \<open>wb\<close>, which empties it. An exception of the read loop leaves the function
  before the exit code is awaited.
\<close>

definition stream_process ::
  "(string \<Rightarrow> string) \<Rightarrow> string list \<Rightarrow> string \<Rightarrow> (string \<rightharpoonup> string) \<Rightarrow> proc_run \<Rightarrow> job_state
     \<Rightarrow> exn option \<times> job_state" where
  "stream_process dec cmd cwd env p s =
     (case p of
        SpawnRaises e \<Rightarrow> (Some e, s)
      | Runs t0 lines fin \<Rightarrow>
          (let s1 = set_status ''running''
                      (s\<lparr>spawned := spawned s @ [(cmd, cwd, env)],
                         result := (result s)\<lparr>start_time := Some t0\<rparr>\<rparr>);
               s2 = s1\<lparr>fs := (fs s1)\<lparr>job_dir := True, build_log := []\<rparr>\<rparr>
           in case read_loop dec lines ([], s2) of
                (Some e, tail, s3) \<Rightarrow> (Some e, s3)
              | (None, tail, s3) \<Rightarrow>
                  (case fin of
                     Raises e \<Rightarrow> (Some e, s3)
                   | Exits code t1 \<Rightarrow>
                       (None,
                        set_status (if code = 0 then ''passed'' else ''failed'')
                          (s3\<lparr>result := (result s3)\<lparr>exit_code := Some code,
                                                     end_time := Some t1\<rparr>\<rparr>)))))"

subsection \<open>run\_job\<close>

text \<open>\<open>Path.parent\<close> of a path with at least one separator: the text before the last one.\<close>

definition parent :: "string \<Rightarrow> string" where
  "parent p = rev (drop 1 (dropWhile (\<lambda>c. c \<noteq> CHR ''/'') (rev p)))"

text \<open>\<open>str(i)\<close> of an integer, as the f-strings print it.\<close>

fun digits :: "nat \<Rightarrow> string" where
  "digits n =
     (if n < 10 then [char_of (48 + n)] else digits (n div 10) @ [char_of (48 + n mod 10)])"

definition str_int :: "int \<Rightarrow> string" where
  "str_int i = (if i < 0 then CHR ''-'' # digits (nat (- i)) else digits (nat i))"

definition build_maven_command ::
  "string \<Rightarrow> FuzzExecution \<Rightarrow> string \<Rightarrow> string \<Rightarrow> bool \<Rightarrow> int \<Rightarrow> int \<Rightarrow> string list" where
  "build_maven_command mvnw exec bdir duration batch rss_limit_mb xmx_mb =
     (let cmd = [mvnw, ''-P'', profile_id exec];
          cmd = (if batch then cmd @ [''-B''] else cmd);
          jazzer_flags = ''-rss_limit_mb='' @ str_int rss_limit_mb;
          asan_opts = ''detect_leaks=1,abort_on_error=1,fast_unwind_on_malloc=0,hard_rss_limit_mb=''
                        @ str_int rss_limit_mb
      in cmd @
         [''-Djazzer.max_duration='' @ duration,
          ''-Denv.JAZZER_FLAGS='' @ jazzer_flags,
          ''-Denv.ASAN_OPTIONS='' @ asan_opts,
          ''-Denv.JAVA_TOOL_OPTIONS=-Xmx'' @ str_int xmx_mb @ ''m'',
          ''-DargLine=-Xmx'' @ str_int xmx_mb @ ''m'',
          ''org.apache.maven.plugins:maven-surefire-plugin:'' @ surefire_version exec
             @ '':test@'' @ execution_id exec])"

text \<open>The argument vector \<open>cmd_compile\<close> that \<open>run_job\<close> builds for the compile phase.\<close>

definition compile_command :: "string \<Rightarrow> FuzzExecution \<Rightarrow> bool \<Rightarrow> string list" where
  "compile_command mvnw exec batch =
     (let cmd_compile = [mvnw, ''-P'', profile_id exec];
          cmd_compile = (if batch then cmd_compile @ [''-B''] else cmd_compile)
      in cmd_compile @ [''test-compile''])"

text \<open>
  What \<open>shutil.copytree\<close> does for a job, as the environment decides it: it succeeds,
  or it raises; in that case it has either created nothing (the source directory could
  not be listed) or created the destination and copied a part of the tree.
\<close>

datatype copy_outcome = CopyOk | CopyRaises exn "entry list option"

text \<open>
  The environment of one job: the job's files before it starts, the content of the base
  directory, what the copy does, what the compile-phase and the run-phase process do,
  and the clock reading taken in an exception handler.
\<close>

record job_env =
  before :: files
  base_tree :: "entry list"
  copy :: copy_outcome
  compile :: proc_run
  run :: proc_run
  t_except :: real

text \<open>\<open>with log_path.open("a") as f: f.write(note)\<close>, in a directory that exists.\<close>

definition append_log :: "string \<Rightarrow> job_state \<Rightarrow> job_state" where
  "append_log note s = s\<lparr>fs := (fs s)\<lparr>build_log := build_log (fs s) @ [note]\<rparr>\<rparr>"

text \<open>
  The isolation step of \<open>run_job\<close>: the working copy is made unless the directory
  \<open>work_dir\<close> exists, and the result's directories are reset to it. The two
  assignments to \<open>work_dir\<close> that the source overwrites at once have no effect and are
  left out. The step yields the exception raised by the copy, or the state.
\<close>

definition isolate :: "string \<Rightarrow> string \<Rightarrow> job_env \<Rightarrow> job_state \<Rightarrow> (exn \<times> job_state) + job_state" where
  "isolate base_dir work_dir jenv s =
     (let copied =
            (if work (fs s) = None
             then (case copy jenv of
                     CopyOk \<Rightarrow>
                       Inr (s\<lparr>fs := (fs s)\<lparr>job_dir := True,
                                             work := Some (copytree ignore base_dir (base_tree jenv))\<rparr>\<rparr>)
                   | CopyRaises e partial \<Rightarrow>
                       Inl (e, s\<lparr>fs := (fs s)\<lparr>job_dir := (job_dir (fs s) \<or> partial \<noteq> None),
                                                work := partial\<rparr>\<rparr>))
             else Inr s)
      in case copied of
           Inl (e, s) \<Rightarrow> Inl (e, s)
         | Inr s \<Rightarrow>
             (let s = s\<lparr>result := (result s)\<lparr>build_dir := path_join work_dir ''target''\<rparr>\<rparr>
              in Inr (s\<lparr>result := (result s)\<lparr>surefire_report_dir :=
                          Some (path_join (build_dir (result s)) ''surefire-reports'')\<rparr>\<rparr>)))"

text \<open>
  The second step of \<open>run_job\<close>, the surefire execution inside \<open>try\<close>. A
  \<open>CancelledError\<close> is recorded and raised again; an \<open>Exception\<close> is recorded and the
  result is returned. \<open>traceback.format_exc()\<close> is written as a fixed text.
\<close>

definition run_phase ::
  "(string \<Rightarrow> string) \<Rightarrow> string list \<Rightarrow> string \<Rightarrow> (string \<rightharpoonup> string) \<Rightarrow> proc_run \<Rightarrow> real \<Rightarrow> job_state
     \<Rightarrow> exn option \<times> job_state" where
  "run_phase dec cmd work_dir env p now s0 =
     (let s = s0\<lparr>result := (result s0)\<lparr>command := Some cmd\<rparr>\<rparr>
      in case stream_process dec cmd work_dir env p s of
           (None, s) \<Rightarrow> (None, s)
         | (Some e, s) \<Rightarrow>
             if e = CancelledError
             then (Some e,
                   append_log ''[Cancelled]''
                     (set_status ''cancelled'' s)
                        \<lparr>result := (result (set_status ''cancelled'' s))\<lparr>end_time := Some now\<rparr>\<rparr>)
             else if is_Exception e
             then (None,
                   append_log ''[Runner Exception]''
                     (set_status ''failed'' s)
                        \<lparr>result := (result (set_status ''failed'' s))\<lparr>end_time := Some now\<rparr>\<rparr>)
             else (Some e, s))"

text \<open>
  \<open>run_job\<close>. It returns the exception that leaves the coroutine, if any, and the state;
  when there is none the coroutine returns the result object of the state.
\<close>

definition run_job ::
  "(string \<Rightarrow> string) \<Rightarrow> string \<Rightarrow> string \<Rightarrow> FuzzExecution \<Rightarrow> string \<Rightarrow> (string \<rightharpoonup> string) \<Rightarrow> bool
     \<Rightarrow> int \<Rightarrow> int \<Rightarrow> job_env \<Rightarrow> job_state \<Rightarrow> exn option \<times> job_state" where
  "run_job dec base_dir mvnw exec duration env_base batch rss_limit_mb xmx_mb jenv s0 =
     (let s = set_status ''queued'' s0;
          env = env_base(''JAZZER_FINDINGS_DIR'' \<mapsto> findings_dir (result s));
          env = (if env ''JAZZER_FUZZ'' = None then env(''JAZZER_FUZZ'' \<mapsto> ''1'') else env);
          env = env(''JAZZER_FLAGS'' \<mapsto> ''-rss_limit_mb='' @ str_int rss_limit_mb);
          job_root = parent (log_path (result s));
          work_dir = path_join job_root ''work''
      in case isolate base_dir work_dir jenv s of
           Inl (e, s) \<Rightarrow> (Some e, s)
         | Inr s \<Rightarrow>
            (let env_compile = env_base |` (- {''JAZZER_FUZZ'', ''JAZZER_FLAGS'', ''ASAN_OPTIONS'',
                                               ''JAVA_TOOL_OPTIONS''});
                 cmd_compile = compile_command mvnw exec batch;
                 s = s\<lparr>result := (result s)\<lparr>command := Some cmd_compile\<rparr>\<rparr>
             in case stream_process dec cmd_compile work_dir env_compile (compile jenv) s of
                  (Some e, s) \<Rightarrow> (Some e, s)
                | (None, s) \<Rightarrow>
                    if exit_code (result s) \<noteq> Some 0 then (None, s)
                    else run_phase dec
                           (build_maven_command mvnw exec (build_dir (result s)) duration batch
                              rss_limit_mb xmx_mb)
                           work_dir env (run jenv) (t_except jenv) s))"

subsection \<open>make\_report\_json\<close>

text \<open>
  The report document. A timestamp field holds the time whose ISO-8601 text the source
  emits; a path has been made relative by \<open>os.path.relpath\<close>, which is a parameter.
\<close>

record report_test =
  t_id :: string
  t_test :: string
  t_class :: "string option"
  t_method :: "string option"
  t_status :: string
  t_exit_code :: "int option"
  t_started_at :: "real option"
  t_ended_at :: "real option"
  t_duration_seconds :: "real option"
  t_build_dir :: "string option"
  t_surefire_report_dir :: "string option"
  t_findings_dir :: "string option"
  t_log_path :: "string option"
  t_command :: "string list option"

record report_summary =
  s_total :: nat
  s_passed :: nat
  s_failed :: nat
  s_cancelled :: nat
  s_duration_seconds :: real

record report =
  r_generated_at :: real
  r_project :: string
  r_profile :: string
  r_jazzer_duration :: string
  r_concurrency :: int
  r_maven_command :: string
  r_out_dir :: string
  r_summary :: report_summary
  r_tests :: "report_test list"

text \<open>\<open>sum(1 for r in results.values() if r.status == v)\<close>.\<close>

definition count_status :: "string \<Rightarrow> (string \<times> JobResult) list \<Rightarrow> nat" where
  "count_status v results = length [r \<leftarrow> map snd results. status r = v]"

text \<open>\<open>t or time.time()\<close>, and the truth value of an optional float: \<open>None\<close> and \<open>0.0\<close> are false.\<close>

definition truthy :: "real option \<Rightarrow> bool" where
  "truthy t = (t \<noteq> None \<and> t \<noteq> Some 0)"

definition or_now :: "real option \<Rightarrow> real \<Rightarrow> real" where
  "or_now t now = (case t of None \<Rightarrow> now | Some x \<Rightarrow> if x = 0 then now else x)"

definition report_entry :: "(string \<Rightarrow> string \<Rightarrow> string) \<Rightarrow> string \<Rightarrow> JobResult \<Rightarrow> report_test" where
  "report_entry relpath base r =
     \<lparr>t_id = execution_id (execution r),
      t_test = test_spec (execution r),
      t_class = test_class (execution r),
      t_method = test_method (execution r),
      t_status = status r,
      t_exit_code = exit_code r,
      t_started_at = (if truthy (start_time r) then start_time r else None),
      t_ended_at = (if truthy (end_time r) then end_time r else None),
      t_duration_seconds =
        (if truthy (end_time r) \<and> truthy (start_time r)
         then Some (the (end_time r) - the (start_time r)) else None),
      t_build_dir = Some (relpath (build_dir r) base),
      t_surefire_report_dir = map_option (\<lambda>p. relpath p base) (surefire_report_dir r),
      t_findings_dir = Some (relpath (findings_dir r) base),
      t_log_path = Some (relpath (log_path r) base),
      t_command = command r\<rparr>"

text \<open>
  \<open>make_report_json\<close>. \<open>now\<close> is the clock, read once; \<open>sorted(results.items())\<close>
  orders the entries by key, the keys of a dictionary being distinct.
\<close>

definition make_report_json ::
  "(string \<Rightarrow> string \<Rightarrow> string) \<Rightarrow> real \<Rightarrow> (string \<times> JobResult) list \<Rightarrow> string \<Rightarrow> string \<Rightarrow> string
     \<Rightarrow> int \<Rightarrow> string \<Rightarrow> string \<Rightarrow> string \<Rightarrow> report" where
  "make_report_json relpath now results project prof dur concurrency mvn_cmd outd base =
     (let total = length results;
          n_passed = count_status ''passed'' results;
          n_failed = count_status ''failed'' results;
          n_cancelled = count_status ''cancelled'' results;
          start_ts = (case map (\<lambda>r. or_now (start_time r) now) (map snd results) of
                        [] \<Rightarrow> now | x # xs \<Rightarrow> fold min xs x);
          end_ts = (case map (\<lambda>r. or_now (end_time r) now) (map snd results) of
                      [] \<Rightarrow> now | x # xs \<Rightarrow> fold max xs x);
          tests = map (\<lambda>(k, r). report_entry relpath base r) (sort_key fst results)
      in \<lparr>r_generated_at = now,
          r_project = project,
          r_profile = prof,
          r_jazzer_duration = dur,
          r_concurrency = concurrency,
          r_maven_command = mvn_cmd,
          r_out_dir = relpath outd base,
          r_summary =
            \<lparr>s_total = total, s_passed = n_passed, s_failed = n_failed,
             s_cancelled = n_cancelled,
             s_duration_seconds = (if total \<noteq> 0 then end_ts - start_ts else 0)\<rparr>,
          r_tests = tests\<rparr>)"

subsection \<open>main\_async\<close>

text \<open>
  The arguments the run reads, with the paths already resolved. The model of
  \<open>main_async\<close> starts where the executions have been read from the POM and filtered and
  the Maven command has been found; their failures end the run before any job exists.
\<close>

record run_args =
  arg_base_dir :: string
  arg_out_dir :: string
  arg_profile :: string
  arg_jobs :: int
  arg_duration :: string
  arg_list :: bool
  arg_no_batch :: bool
  arg_rss_limit_mb :: int
  arg_xmx_mb :: int

text \<open>The placeholder entry of the results dictionary.\<close>

definition new_result :: "string \<Rightarrow> FuzzExecution \<Rightarrow> JobResult" where
  "new_result outd e =
     (let d = path_join outd (sanitize_for_path (execution_id e))
      in \<lparr>status = ''queued'', execution = e,
          build_dir = path_join d ''target'',
          findings_dir = path_join d ''findings'',
          log_path = path_join d ''build.log'',
          start_time = None, end_time = None, exit_code = None, command = None,
          last_lines = [],
          surefire_report_dir = Some (path_join (path_join d ''target'') ''surefire-reports'')\<rparr>)"

text \<open>The entry that the drain loop makes for a task that raised.\<close>

definition failed_result :: "string \<Rightarrow> real \<Rightarrow> real \<Rightarrow> FuzzExecution \<Rightarrow> JobResult" where
  "failed_result outd t_start t_end e =
     (new_result outd e)\<lparr>status := ''failed'', start_time := Some t_start,
                          end_time := Some t_end, exit_code := Some (- 1)\<rparr>"

text \<open>
  A task that is done: the exception it raised, if any, and the state its job ended in.
  A job touches its own result object and its own files only, so each task is run to
  its end on its own; this needs the ids, and the directory names made from them, to be
  distinct.
\<close>

type_synonym task = "exn option \<times> job_state"

definition run_one ::
  "(string \<Rightarrow> string) \<Rightarrow> run_args \<Rightarrow> string \<Rightarrow> (string \<rightharpoonup> string) \<Rightarrow> (string \<times> JobResult) list
     \<Rightarrow> FuzzExecution \<Rightarrow> job_env \<Rightarrow> task" where
  "run_one dec args mvnw environ results e jenv =
     (case map_of results (execution_id e) of
        None \<Rightarrow>
          (Some KeyError,
           \<lparr>result = new_result (arg_out_dir args) e, fs = before jenv, spawned = [],
            status_trace = []\<rparr>)
      | Some r \<Rightarrow>
          run_job dec (arg_base_dir args) mvnw e (arg_duration args) environ
            (\<not> arg_no_batch args) (arg_rss_limit_mb args) (arg_xmx_mb args) jenv
            \<lparr>result = r, fs = before jenv, spawned = [], status_trace = []\<rparr>)"

text \<open>
  The last two statements of the loop body: \<open>if exec_id: results[exec_id] = res;
  del tasks[exec_id]\<close>. The empty string is false.
\<close>

definition store_result ::
  "string \<Rightarrow> JobResult \<Rightarrow> (string \<times> task) list \<times> (string \<times> JobResult) list
     \<Rightarrow> (string \<times> task) list \<times> (string \<times> JobResult) list" where
  "store_result exec_id res st =
     (case st of (tasks, results) \<Rightarrow>
        if exec_id \<noteq> [] then (AList.delete exec_id tasks, AList.update exec_id res results)
        else (tasks, results))"

text \<open>
  The body of \<open>for t in done\<close> for the task stored under \<open>exec_id\<close>. \<open>t.result()\<close>
  returns the job's result or raises what the task raised. \<open>except Exception\<close> makes a
  failed entry and appends a note to the job's log, which raises \<open>FileNotFoundError\<close>
  when the job's directory does not exist; that exception and one that is not an
  \<open>Exception\<close> leave \<open>main_async\<close>.
\<close>

definition handle_done ::
  "string \<Rightarrow> real \<Rightarrow> real \<Rightarrow> FuzzExecution list \<Rightarrow> string \<Rightarrow> task
     \<Rightarrow> (string \<times> task) list \<times> (string \<times> JobResult) list
     \<Rightarrow> exn + ((string \<times> task) list \<times> (string \<times> JobResult) list)" where
  "handle_done outd t_start t_end execs exec_id t st =
     (case t of (raised, js) \<Rightarrow>
        (case raised of
           None \<Rightarrow> Inr (store_result exec_id (result js) st)
         | Some ex \<Rightarrow>
             if \<not> is_Exception ex then Inl ex
             else
               (case find (\<lambda>ev. execution_id ev = exec_id) execs of
                  None \<Rightarrow> Inr st
                | Some e \<Rightarrow>
                    if job_dir (fs js)
                    then Inr (store_result exec_id (failed_result outd t_start t_end e) st)
                    else Inl FileNotFoundError)))"

text \<open>
  The loop \<open>while tasks\<close>. \<open>completion\<close> lists the ids in the order in which their
  tasks finish; \<open>asyncio.wait\<close> hands over the pending task that finishes first, and
  never returns when no pending task finishes. The first argument bounds the number of
  iterations: \<open>None\<close> says that the loop has not ended within them.
\<close>

fun drain ::
  "nat \<Rightarrow> string \<Rightarrow> real \<Rightarrow> real \<Rightarrow> FuzzExecution list \<Rightarrow> string list
     \<Rightarrow> (string \<times> task) list \<times> (string \<times> JobResult) list
     \<Rightarrow> (exn + (string \<times> JobResult) list) option" where
  "drain 0 outd t_start t_end execs completion st = None"
| "drain (Suc n) outd t_start t_end execs completion st =
     (case st of (tasks, results) \<Rightarrow>
        if tasks = [] then Some (Inr results)
        else
          (case find (\<lambda>k. k \<in> set (map fst tasks)) completion of
             None \<Rightarrow> None
           | Some k \<Rightarrow>
               (case map_of tasks k of
                  None \<Rightarrow> None
                | Some t \<Rightarrow>
                    (case handle_done outd t_start t_end execs k t st of
                       Inl ex \<Rightarrow> Some (Inl ex)
                     | Inr st' \<Rightarrow> drain n outd t_start t_end execs completion st'))))"

record run_outcome =
  rc :: int
  final_results :: "(string \<times> JobResult) list"
  report_json :: "report option"

text \<open>
  \<open>main_async\<close> from the listing mode on. \<open>specs\<close> pairs every execution with the
  environment of its job. \<open>asyncio.Semaphore\<close> raises \<open>ValueError\<close> for a negative
  value; with the value 0 no task ever enters \<open>run_job\<close> and the run does not end. The
  result is the exception that leaves \<open>main_async\<close>, or the exit code with the results
  dictionary and the report written.
\<close>

definition main_async ::
  "nat \<Rightarrow> (string \<Rightarrow> string) \<Rightarrow> (string \<Rightarrow> string \<Rightarrow> string) \<Rightarrow> run_args \<Rightarrow> string
     \<Rightarrow> (string \<rightharpoonup> string) \<Rightarrow> real \<Rightarrow> real \<Rightarrow> (FuzzExecution \<times> job_env) list \<Rightarrow> string list
     \<Rightarrow> (exn + run_outcome) option" where
  "main_async fuel dec relpath args mvnw environ t_start t_end specs completion =
     (let execs = map fst specs
      in if arg_list args then Some (Inr \<lparr>rc = 0, final_results = [], report_json = None\<rparr>)
         else if execs = [] then Some (Inr \<lparr>rc = 1, final_results = [], report_json = None\<rparr>)
         else
           (let results = foldl (\<lambda>d e. AList.update (execution_id e)
                                          (new_result (arg_out_dir args) e) d) [] execs
            in if arg_jobs args < 0 then Some (Inl ValueError)
               else
                 (let tasks = foldl (\<lambda>d (e, jenv). AList.update (execution_id e)
                                         (run_one dec args mvnw environ results e jenv) d) [] specs
                  in if arg_jobs args = 0 then None
                     else
                       (case drain fuel (arg_out_dir args) t_start t_end execs completion
                               (tasks, results) of
                          None \<Rightarrow> None
                        | Some (Inl ex) \<Rightarrow> Some (Inl ex)
                        | Some (Inr results) \<Rightarrow>
                            (let report = make_report_json relpath t_end results ''lz4-java''
                                            (arg_profile args) (arg_duration args) (arg_jobs args)
                                            mvnw (arg_out_dir args) (arg_base_dir args);
                                 n_failed = count_status ''failed'' results
                             in Some (Inr \<lparr>rc = (if n_failed = 0 then 0 else 2),
                                           final_results = results,
                                           report_json = Some report\<rparr>))))))"

text \<open>
  \<open>main(argv)\<close> and the last line of the script, \<open>sys.exit(main(sys.argv[1:]))\<close>.
  \<open>main\<close> returns the value of \<open>main_async\<close>, which becomes the exit status of the
  process. Its \<open>try\<close> around \<open>run_until_complete\<close> has a \<open>finally\<close> clause only, so an
  exception that leaves \<open>main_async\<close> leaves \<open>main\<close> and the script as well, and the
  interpreter ends with the exit status 1. \<open>None\<close> stands for a run that has not ended.
\<close>

definition exit_status :: "(exn + run_outcome) option \<Rightarrow> int option" where
  "exit_status r =
     (case r of
        None \<Rightarrow> None
      | Some (Inl ex) \<Rightarrow> Some 1
      | Some (Inr out) \<Rightarrow> Some (rc out))"

subsection \<open>The admission gate\<close>

text \<open>
  \<open>run_one\<close> runs \<open>run_job\<close> inside \<open>async with sem\<close>, where \<open>sem\<close> is a semaphore with
  \<open>args.jobs\<close> permits. A task waits for a permit, then holds it while \<open>run_job\<close> sets
  the status of its job, and gives it back when \<open>run_job\<close> returns or raises. The run as
  an interleaving: the number of free permits and the phase of every task.
\<close>

datatype phase = Waiting | Holding string | Released

record gate =
  permits :: nat
  phases :: "phase list"

definition holding :: "phase \<Rightarrow> bool" where
  "holding p = (case p of Holding v \<Rightarrow> True | _ \<Rightarrow> False)"

definition active :: "gate \<Rightarrow> nat" where
  "active g = length [p \<leftarrow> phases g. holding p]"

inductive gate_step :: "gate \<Rightarrow> gate \<Rightarrow> bool" where
  acquire: "i < length (phases g) \<Longrightarrow> phases g ! i = Waiting \<Longrightarrow> 0 < permits g \<Longrightarrow>
     gate_step g (g\<lparr>permits := permits g - 1, phases := (phases g)[i := Holding ''queued'']\<rparr>)"
| progress: "i < length (phases g) \<Longrightarrow> phases g ! i = Holding v \<Longrightarrow>
     gate_step g (g\<lparr>phases := (phases g)[i := Holding v']\<rparr>)"
| release: "i < length (phases g) \<Longrightarrow> phases g ! i = Holding v \<Longrightarrow>
     gate_step g (g\<lparr>permits := permits g + 1, phases := (phases g)[i := Released]\<rparr>)"

definition gate_init :: "nat \<Rightarrow> nat \<Rightarrow> gate" where
  "gate_init cap n = \<lparr>permits = cap, phases = replicate n Waiting\<rparr>"

inductive reachable :: "nat \<Rightarrow> nat \<Rightarrow> gate \<Rightarrow> bool" where
  start: "reachable cap n (gate_init cap n)"
| step: "reachable cap n g \<Longrightarrow> gate_step g g' \<Longrightarrow> reachable cap n g'"

subsection \<open>Notions used in the statements\<close>

text \<open>The terminal statuses of the specification.\<close>

definition terminal :: "string \<Rightarrow> bool" where
  "terminal v = (v \<in> set [''passed'', ''failed'', ''cancelled'', ''errored''])"

text \<open>
  A sequence of statuses in which a terminal status, once set, is never replaced by
  another status.
\<close>

fun terminal_absorbing :: "string list \<Rightarrow> bool" where
  "terminal_absorbing (a # b # rest) = ((\<not> terminal a \<or> b = a) \<and> terminal_absorbing (b # rest))"
| "terminal_absorbing _ = True"

text \<open>The state a task starts \<open>run_job\<close> in, for a result object and the job's files.\<close>

definition job_start :: "JobResult \<Rightarrow> files \<Rightarrow> job_state" where
  "job_start r f = \<lparr>result = r, fs = f, spawned = [], status_trace = []\<rparr>"

text \<open>The state after an isolation step that did not raise.\<close>

definition isolated :: "string \<Rightarrow> string \<Rightarrow> job_env \<Rightarrow> job_state \<Rightarrow> job_state" where
  "isolated base wd jenv s =
     (let s1 = (if work (fs s) = None
                then s\<lparr>fs := (fs s)\<lparr>job_dir := True, work := Some (copytree ignore base (base_tree jenv))\<rparr>\<rparr>
                else s)
      in s1\<lparr>result := (result s1)\<lparr>build_dir := path_join wd ''target'',
              surefire_report_dir := Some (path_join (path_join wd ''target'') ''surefire-reports'')\<rparr>\<rparr>)"

text \<open>
  The lines of a process that the read loop reads, and the process as \<open>stream_process\<close>
  meets it: a line over the limit ends the reading with \<open>ValueError\<close>.
\<close>

definition within_limit :: "string list \<Rightarrow> bool" where
  "within_limit lines = list_all (\<lambda>l. \<not> over_limit l) lines"

definition lines_read :: "string list \<Rightarrow> string list" where
  "lines_read lines = takeWhile (\<lambda>l. \<not> over_limit l) lines"

fun effective :: "proc_run \<Rightarrow> proc_run" where
  "effective (SpawnRaises e) = SpawnRaises e"
| "effective (Runs t0 lines fin) =
     Runs t0 (lines_read lines) (if within_limit lines then fin else Raises ValueError)"

text \<open>
  The outline of a job as its environment determines it: the exception that leaves
  \<open>run_job\<close>, the statuses assigned in order, the number of processes spawned, and
  the exit code stored (\<open>None\<close> when none is stored). \<open>has_work\<close> says that the
  working copy exists when the job starts. The theorems below show that \<open>run_job\<close>
  follows the outline.
\<close>

definition job_outline :: "bool \<Rightarrow> job_env \<Rightarrow> exn option \<times> string list \<times> nat \<times> int option" where
  "job_outline has_work jenv =
     (case (has_work, copy jenv) of
        (False, CopyRaises ex partial) \<Rightarrow> (Some ex, [''queued''], 0, None)
      | _ \<Rightarrow>
        (case effective (compile jenv) of
           SpawnRaises ex \<Rightarrow> (Some ex, [''queued''], 0, None)
         | Runs t0 lines (Raises ex) \<Rightarrow> (Some ex, [''queued'', ''running''], 1, None)
         | Runs t0 lines (Exits code t1) \<Rightarrow>
             if code \<noteq> 0 then (None, [''queued'', ''running'', ''failed''], 1, Some code)
             else
               (case effective (run jenv) of
                  SpawnRaises ex \<Rightarrow>
                    if ex = CancelledError
                    then (Some ex, [''queued'', ''running'', ''passed'', ''cancelled''], 1, Some 0)
                    else (None, [''queued'', ''running'', ''passed'', ''failed''], 1, Some 0)
                | Runs t2 lines2 (Raises ex) \<Rightarrow>
                    if ex = CancelledError
                    then (Some ex, [''queued'', ''running'', ''passed'', ''running'', ''cancelled''],
                          2, Some 0)
                    else (None, [''queued'', ''running'', ''passed'', ''running'', ''failed''],
                          2, Some 0)
                | Runs t2 lines2 (Exits code2 t3) \<Rightarrow>
                    (None,
                     [''queued'', ''running'', ''passed'', ''running'',
                      if code2 = 0 then ''passed'' else ''failed''],
                     2, Some code2))))"

text \<open>
  The entry that the drain loop stores for a finished task of the execution \<open>e\<close>: the
  job's result when the task returned, the failed entry when it raised.
\<close>

definition task_entry :: "string \<Rightarrow> real \<Rightarrow> real \<Rightarrow> FuzzExecution \<Rightarrow> task \<Rightarrow> JobResult" where
  "task_entry outd t_start t_end e t =
     (case fst t of None \<Rightarrow> result (snd t) | Some ex \<Rightarrow> failed_result outd t_start t_end e)"

text \<open>
  A task that the drain loop can record: it returned, or it raised an \<open>Exception\<close>
  and the job's directory exists.
\<close>

definition recordable :: "task \<Rightarrow> bool" where
  "recordable t = (case fst t of None \<Rightarrow> True | Some ex \<Rightarrow> is_Exception ex \<and> job_dir (fs (snd t)))"

text \<open>A result with one of the two statuses that \<open>run_job\<close> returns with.\<close>

definition settled :: "JobResult \<Rightarrow> bool" where
  "settled r = (status r = ''passed'' \<or> status r = ''failed'')"

text \<open>
  The task of one execution: \<open>run_job\<close> with the arguments of \<open>run_one\<close>, started on
  the execution's placeholder entry and the job's files.
\<close>

definition job_task ::
  "(string \<Rightarrow> string) \<Rightarrow> run_args \<Rightarrow> string \<Rightarrow> (string \<rightharpoonup> string) \<Rightarrow> FuzzExecution \<Rightarrow> job_env \<Rightarrow> task" where
  "job_task dec args mvnw environ e jenv =
     run_job dec (arg_base_dir args) mvnw e (arg_duration args) environ (\<not> arg_no_batch args)
       (arg_rss_limit_mb args) (arg_xmx_mb args) jenv
       (job_start (new_result (arg_out_dir args) e) (before jenv))"

text \<open>
  The results dictionary in which every execution, in the order of submission, has the
  entry of its own task.
\<close>

definition own_entries ::
  "(string \<Rightarrow> string) \<Rightarrow> run_args \<Rightarrow> string \<Rightarrow> (string \<rightharpoonup> string) \<Rightarrow> real \<Rightarrow> real
     \<Rightarrow> (FuzzExecution \<times> job_env) list \<Rightarrow> (string \<times> JobResult) list" where
  "own_entries dec args mvnw environ t_start t_end specs =
     map (\<lambda>p. (execution_id (fst p),
                task_entry (arg_out_dir args) t_start t_end (fst p)
                  (job_task dec args mvnw environ (fst p) (snd p)))) specs"

subsection \<open>Example inputs\<close>

definition exec_a :: FuzzExecution where
  "exec_a = \<lparr>execution_id = ''A'', test_spec = ''net.jpountz.fuzz.LZ4DecompressorTest#safe_fast_array'',
             surefire_version = ''3.2.5'', profile_id = ''fuzz''\<rparr>"

definition exec_b :: FuzzExecution where
  "exec_b = \<lparr>execution_id = ''B'', test_spec = ''net.jpountz.fuzz.LZ4CompressorTest'',
             surefire_version = ''3.2.5'', profile_id = ''fuzz''\<rparr>"

definition exec_c :: FuzzExecution where
  "exec_c = \<lparr>execution_id = ''C'', test_spec = ''net.jpountz.fuzz.XXHashTest#hash32'',
             surefire_version = ''3.2.5'', profile_id = ''fuzz''\<rparr>"

definition fresh :: files where
  "fresh = \<lparr>job_dir = False, work = None, build_log = []\<rparr>"

text \<open>A job whose two phases exit with 0.\<close>

definition env_pass :: job_env where
  "env_pass = \<lparr>before = fresh, base_tree = [File ''pom.xml'', Dir ''src'' [File ''A.java'']],
               copy = CopyOk, compile = Runs 0 [''BUILD SUCCESS''] (Exits 0 1),
               run = Runs 1 [''fuzzing'', ''done''] (Exits 0 2), t_except = 3\<rparr>"

text \<open>Jobs whose compile phase exits with 1, and whose run phase exits with 1.\<close>

definition env_compile_fails :: job_env where
  "env_compile_fails = env_pass\<lparr>compile := Runs 0 [''COMPILATION ERROR''] (Exits 1 1)\<rparr>"

definition env_run_fails :: job_env where
  "env_run_fails = env_pass\<lparr>run := Runs 1 [''== Java Exception''] (Exits 1 2)\<rparr>"




text \<open>
  Jobs whose copy raises: after the destination was created, and before anything was
  created, as for a base directory that cannot be listed.
\<close>

definition env_copy_breaks :: job_env where
  "env_copy_breaks = env_pass\<lparr>copy := CopyRaises OSError (Some [File ''pom.xml''])\<rparr>"

definition env_unreadable :: job_env where
  "env_unreadable = env_pass\<lparr>copy := CopyRaises OSError None\<rparr>"

text \<open>A job whose task is cancelled while the run-phase process streams.\<close>

definition env_cancelled :: job_env where
  "env_cancelled = env_pass\<lparr>run := Runs 1 [''fuzzing''] (Raises CancelledError)\<rparr>"

definition args_example :: run_args where
  "args_example = \<lparr>arg_base_dir = ''/repo'', arg_out_dir = ''/repo/fuzz-out'', arg_profile = ''fuzz'',
                   arg_jobs = 2, arg_duration = ''5s'', arg_list = False, arg_no_batch = False,
                   arg_rss_limit_mb = 1024, arg_xmx_mb = 700\<rparr>"

definition state_a :: job_state where
  "state_a = job_start (new_result ''/repo/fuzz-out'' exec_a) fresh"



text \<open>A state of the gate with one permit and three tasks.\<close>

definition gate_example :: gate where
  "gate_example = \<lparr>permits = 0, phases = [Holding ''running'', Released, Waiting]\<rparr>"

section \<open>Properties\<close>

subsection \<open>sanitize\_for\_path\<close>

lemma re_sub_run_safe: "c \<in> set (re_sub_run b s) \<Longrightarrow> safe_char c"
  by (induction s arbitrary: b) (auto simp: safe_char_def split: if_splits)

lemma re_sub_run_id: "\<forall>c\<in>set s. safe_char c \<Longrightarrow> re_sub_run b s = s"
  by (induction s arbitrary: b) auto

lemma nibble_less: "unat ((w :: 32 word) AND 0xF) < 16" 
proof -
  have "w AND 0xF \<le> 0xF" by (rule word_and_le1)
  then show ?thesis by (simp add: word_le_nat_alt)
qed

lemma hex_digit_safe: "n < 16 \<Longrightarrow> safe_char (hex_digit n)"
proof -
  assume "n < 16"
  then have "n \<in> set [0..<16]" by simp
  then show ?thesis
    by (auto simp add: upt_rec hex_digit_def safe_char_def)
qed

lemma hex32_safe: "c \<in> set (hex32 w) \<Longrightarrow> safe_char c"
  by (auto simp: hex32_def intro: hex_digit_safe nibble_less)

lemma length_hex32: "length (hex32 w) = 8"
  by (simp add: hex32_def)

lemma take8_hexdigest: "take 8 (sha1_hexdigest s) = hex32 (fst (sha1 (map (\<lambda>c. word_of_nat (of_char c)) s)))"
  by (simp add: sha1_hexdigest_def length_hex32 split: prod.splits)

lemma underscore_safe: "safe_char CHR ''_''" by (simp add: safe_char_def)

lemma replicate_a: "re_sub_run b (replicate n CHR ''a'') = replicate n CHR ''a''"
  by (rule re_sub_run_id) (simp add: safe_char_def)

text \<open>
  Claim C10, as the code has it. For every string \<open>s\<close>, the result of
  \<open>sanitize_for_path\<close> consists of characters from \<open>[A-Za-z0-9._-]\<close> only and has at
  most 150 characters, and equal inputs give equal results. The bound is 150 and not
  129: a substituted string of up to 150 characters is returned as it is, and only a
  longer one is cut to 120 characters, an underscore and eight hexadecimal digits.
\<close>

theorem sanitize_for_path_wellformed:
  "(\<forall>c \<in> set (sanitize_for_path s). safe_char c) \<and>
   length (sanitize_for_path s) \<le> 150 \<and>
   (\<forall>t. t = s \<longrightarrow> sanitize_for_path t = sanitize_for_path s)"
proof (cases "length (re_sub_unsafe s) > 150")
  case True
  then have eq: "sanitize_for_path s =
      take 120 (re_sub_unsafe s) @ ''_'' @ take 8 (sha1_hexdigest (re_sub_unsafe s))"
    by (simp add: sanitize_for_path_def Let_def)
  have "\<forall>c \<in> set (take 120 (re_sub_unsafe s)). safe_char c"
    by (auto simp: re_sub_unsafe_def dest!: in_set_takeD re_sub_run_safe)
  moreover have "\<forall>c \<in> set (take 8 (sha1_hexdigest (re_sub_unsafe s))). safe_char c"
    by (simp add: take8_hexdigest hex32_safe)
  moreover have "length (take 8 (sha1_hexdigest (re_sub_unsafe s))) = 8"
    by (simp add: take8_hexdigest length_hex32)
  ultimately show ?thesis
    using True by (auto simp: eq underscore_safe)
next
  case False
  then have eq: "sanitize_for_path s = re_sub_unsafe s"
    by (simp add: sanitize_for_path_def)
  show ?thesis
    using False by (auto simp: eq re_sub_unsafe_def dest: re_sub_run_safe)
qed

theorem sanitize_for_path_wellformed_witness:
  "list_all safe_char (sanitize_for_path ''fuzz a/b#c'') \<and>
   length (sanitize_for_path ''fuzz a/b#c'') \<le> 150 \<and>
   sanitize_for_path ''fuzz a/b#c'' = ''fuzz_a_b_c''"
  using sanitize_for_path_wellformed [of "''fuzz a/b#c''"]
  by (simp add: sanitize_for_path_def re_sub_unsafe_def safe_char_def)

text \<open>
  The claim as stated is false: an id of 130 letters \<open>a\<close> is returned unchanged, so the
  result is longer than 129 characters.
\<close>

theorem sanitize_for_path_length_counterexample:
  "\<not> length (sanitize_for_path (replicate 130 CHR ''a'')) \<le> 129"
  by (simp add: sanitize_for_path_def re_sub_unsafe_def replicate_a)

subsection \<open>The exclusion callback\<close>

text \<open>
  Claim C8 at a failing input. The base directory holds \<open>.git\<close>, the crash artifact
  \<open>crash-1\<close> and a source directory with \<open>hs_err_pid7.log\<close> beside \<open>target\<close>. The
  callback returns the first set wherever it is not empty, so in both directories the
  crash artifact is not in the ignored set and the copy contains it.
\<close>

theorem copytree_keeps_crash_artifacts:
  "ignore ''base'' [''.git'', ''crash-1''] = {''.git''} \<and>
   copytree ignore ''base''
     [Dir ''.git'' [], File ''crash-1'',
      Dir ''src'' [File ''hs_err_pid7.log'', File ''A.java'', Dir ''target'' []]] =
     [File ''crash-1'', Dir ''src'' [File ''hs_err_pid7.log'', File ''A.java'']] \<and>
   excluded_name ''crash-1'' \<and> excluded_name ''hs_err_pid7.log''"
  by (simp add: ignore_def copytree_def path_join_def startswith_def excluded_name_def)

subsection \<open>The output tail of stream\_process\<close>

lemma lines_read_within: "within_limit (lines_read lines)"
  unfolding within_limit_def lines_read_def list_all_iff
  by (auto dest: set_takeWhileD)

lemma lines_read_id: "within_limit lines \<Longrightarrow> lines_read lines = lines"
  unfolding within_limit_def lines_read_def list_all_iff by simp

lemma read_loop_stops:
  "read_loop dec lines st =
     (if within_limit lines then None else Some ValueError, snd (read_loop dec (lines_read lines) st))"
proof (induction lines arbitrary: st)
  case Nil
  show ?case by (cases st) (simp add: within_limit_def lines_read_def)
next
  case (Cons x xs)
  obtain tail s where st: "st = (tail, s)" by (cases st)
  show ?case
  proof (cases "over_limit x")
    case True
    then show ?thesis by (simp add: st within_limit_def lines_read_def)
  next
    case False
    define st2 where "st2 = (let s1 = s\<lparr>fs := (fs s)\<lparr>build_log := build_log (fs s) @ [x]\<rparr>\<rparr>;
             sline = rstrip (dec x);
             tail1 = tail @ [sline];
             tail2 = (if length tail1 > tail_max then tl tail1 else tail1)
         in (tail2, s1\<lparr>result := (result s1)\<lparr>last_lines := tail2\<rparr>\<rparr>))"
    have a: "read_loop dec (x # ys) st = read_loop dec ys st2" for ys
      using False by (simp add: st st2_def Let_def)
    have b: "within_limit (x # xs) = within_limit xs" "lines_read (x # xs) = x # lines_read xs"
      using False by (simp_all add: within_limit_def lines_read_def)
    show ?thesis unfolding b a by (rule Cons.IH)
  qed
qed

lemma read_loop_ok: "within_limit lines \<Longrightarrow> fst (read_loop dec lines st) = None"
  by (subst read_loop_stops) simp

lemma within_limit_append: "within_limit (xs @ ys) = (within_limit xs \<and> within_limit ys)"
  by (simp add: within_limit_def)





lemma read_loop_state:
  "within_limit lines \<Longrightarrow>
   snd (snd (read_loop dec lines (tl0, s))) =
     s\<lparr>fs := (fs s)\<lparr>build_log := build_log (fs s) @ lines\<rparr>,
       result := (result s)\<lparr>last_lines :=
          (if lines = [] then last_lines (result s) else fst (snd (read_loop dec lines (tl0, s))))\<rparr>\<rparr>"
proof (induction lines arbitrary: tl0 s)
  case Nil
  show ?case by simp
next
  case (Cons l rest)
  then have ok: "\<not> over_limit l" and wr: "within_limit rest" by (simp_all add: within_limit_def)
  define tail2 where "tail2 =
    (if length (tl0 @ [rstrip (dec l)]) > tail_max then tl (tl0 @ [rstrip (dec l)])
     else tl0 @ [rstrip (dec l)])"
  define s2 where "s2 =
    s\<lparr>fs := (fs s)\<lparr>build_log := build_log (fs s) @ [l]\<rparr>,
      result := (result s)\<lparr>last_lines := tail2\<rparr>\<rparr>"
  have step: "read_loop dec (l # rest) (tl0, s) = read_loop dec rest (tail2, s2)"
    using ok by (simp add: Let_def tail2_def s2_def)
  have "snd (snd (read_loop dec rest (tail2, s2))) =
     s2\<lparr>fs := (fs s2)\<lparr>build_log := build_log (fs s2) @ rest\<rparr>,
       result := (result s2)\<lparr>last_lines := fst (snd (read_loop dec rest (tail2, s2)))\<rparr>\<rparr>"
    by (cases "rest = []") (simp_all add: Cons.IH[OF wr] s2_def)
  then show ?case
    unfolding step by (simp add: s2_def)
qed

lemma read_loop_log:
  "within_limit lines \<Longrightarrow>
   build_log (fs (snd (snd (read_loop dec lines (tail, s))))) = build_log (fs s) @ lines"
  by (simp add: read_loop_state)


lemma stream_process_effective:
  "stream_process dec cmd cwd env p s = stream_process dec cmd cwd env (effective p) s"
proof (cases p)
  case (SpawnRaises e)
  then show ?thesis by simp
next
  case (Runs t0 lines fin)
  show ?thesis
    unfolding Runs effective.simps stream_process_def proc_run.case Let_def
    by (subst (1 2) read_loop_stops)
       (simp add: lines_read_within lines_read_id split: prod.splits)
qed









subsection \<open>The course of a job\<close>

lemma effective_within: "effective p = Runs t0 lines fin \<Longrightarrow> within_limit lines"
  by (cases p) (auto simp: lines_read_within)

lemma effective_id: "within_limit lines \<Longrightarrow> effective (Runs t0 lines fin) = Runs t0 lines fin"
  by (simp add: lines_read_id)

lemma effective_over: "\<not> within_limit lines \<Longrightarrow>
    effective (Runs t0 lines fin) = Runs t0 (lines_read lines) (Raises ValueError)"
  by simp


lemma stream_process_spawn_raises:
  "stream_process dec cmd cwd env (SpawnRaises e) s = (Some e, s)"
  by (simp add: stream_process_def)

lemma stream_process_within:
  assumes w: "within_limit lines"
  obtains s3 where
    "stream_process dec cmd cwd env (Runs t0 lines fin) s =
       (case fin of
          Raises e \<Rightarrow> (Some e, s3)
        | Exits code t1 \<Rightarrow>
            (None, set_status (if code = 0 then ''passed'' else ''failed'')
                     (s3\<lparr>result := (result s3)\<lparr>exit_code := Some code, end_time := Some t1\<rparr>\<rparr>)))"
    "status (result s3) = ''running''" "exit_code (result s3) = exit_code (result s)"
    "command (result s3) = command (result s)" "status_trace s3 = status_trace s @ [''running'']"
    "spawned s3 = spawned s @ [(cmd, cwd, env)]" "job_dir (fs s3)"
proof -
  define s2 where "s2 =
     (set_status ''running''
        (s\<lparr>spawned := spawned s @ [(cmd, cwd, env)], result := (result s)\<lparr>start_time := Some t0\<rparr>\<rparr>))
     \<lparr>fs := (fs (set_status ''running''
        (s\<lparr>spawned := spawned s @ [(cmd, cwd, env)], result := (result s)\<lparr>start_time := Some t0\<rparr>\<rparr>)))
          \<lparr>job_dir := True, build_log := []\<rparr>\<rparr>"
  obtain r tl3 s3 where rl: "read_loop dec lines ([], s2) = (r, tl3, s3)"
    by (cases "read_loop dec lines ([], s2)") auto
  have r: "r = None"
    using read_loop_ok[OF w, of dec "([], s2)"] unfolding rl by simp
  have s3: "s3 = s2\<lparr>fs := (fs s2)\<lparr>build_log := build_log (fs s2) @ lines\<rparr>,
       result := (result s2)\<lparr>last_lines :=
          (if lines = [] then last_lines (result s2) else fst (snd (read_loop dec lines ([], s2))))\<rparr>\<rparr>"
    using read_loop_state[OF w, of dec "[]" s2] unfolding rl by simp
  have eq: "stream_process dec cmd cwd env (Runs t0 lines fin) s =
       (case fin of
          Raises e \<Rightarrow> (Some e, s3)
        | Exits code t1 \<Rightarrow>
            (None, set_status (if code = 0 then ''passed'' else ''failed'')
                     (s3\<lparr>result := (result s3)\<lparr>exit_code := Some code, end_time := Some t1\<rparr>\<rparr>)))"
    unfolding stream_process_def proc_run.case Let_def s2_def[symmetric] rl r by simp
  have f: "status (result s3) = ''running''" "exit_code (result s3) = exit_code (result s)"
    "command (result s3) = command (result s)" "status_trace s3 = status_trace s @ [''running'']"
    "spawned s3 = spawned s @ [(cmd, cwd, env)]" "job_dir (fs s3)"
    unfolding s3 by (simp_all add: s2_def set_status_def)
  show thesis by (rule that[OF eq f])
qed

lemma stream_process_exits:
  assumes "within_limit lines"
    and "stream_process dec cmd cwd env (Runs t0 lines (Exits code t1)) s = (r, s')"
  shows "r = None \<and>
     status (result s') = (if code = 0 then ''passed'' else ''failed'') \<and>
     exit_code (result s') = Some code \<and>
     command (result s') = command (result s) \<and>
     status_trace s' = status_trace s @ [''running'', if code = 0 then ''passed'' else ''failed''] \<and>
     spawned s' = spawned s @ [(cmd, cwd, env)] \<and>
     job_dir (fs s')"
proof -
  obtain s3 where
    eq: "stream_process dec cmd cwd env (Runs t0 lines (Exits code t1)) s =
       (case Exits code t1 of
          Raises e \<Rightarrow> (Some e, s3)
        | Exits code t1 \<Rightarrow>
            (None, set_status (if code = 0 then ''passed'' else ''failed'')
                     (s3\<lparr>result := (result s3)\<lparr>exit_code := Some code, end_time := Some t1\<rparr>\<rparr>)))"
    and f: "status (result s3) = ''running''" "exit_code (result s3) = exit_code (result s)"
    "command (result s3) = command (result s)" "status_trace s3 = status_trace s @ [''running'']"
    "spawned s3 = spawned s @ [(cmd, cwd, env)]" "job_dir (fs s3)"
    by (rule stream_process_within[OF assms(1)])
  from assms(2) have "r = None" "s' = set_status (if code = 0 then ''passed'' else ''failed'')
                     (s3\<lparr>result := (result s3)\<lparr>exit_code := Some code, end_time := Some t1\<rparr>\<rparr>)"
    unfolding eq by simp_all
  then show ?thesis using f by (simp add: set_status_def)
qed

lemma stream_process_raises:
  assumes "within_limit lines"
    and "stream_process dec cmd cwd env (Runs t0 lines (Raises e)) s = (r, s')"
  shows "r = Some e \<and>
     status (result s') = ''running'' \<and>
     exit_code (result s') = exit_code (result s) \<and>
     command (result s') = command (result s) \<and>
     status_trace s' = status_trace s @ [''running''] \<and>
     spawned s' = spawned s @ [(cmd, cwd, env)] \<and>
     job_dir (fs s')"
proof -
  obtain s3 where
    eq: "stream_process dec cmd cwd env (Runs t0 lines (Raises e)) s =
       (case Raises e of
          Raises e \<Rightarrow> (Some e, s3)
        | Exits code t1 \<Rightarrow>
            (None, set_status (if code = 0 then ''passed'' else ''failed'')
                     (s3\<lparr>result := (result s3)\<lparr>exit_code := Some code, end_time := Some t1\<rparr>\<rparr>)))"
    and f: "status (result s3) = ''running''" "exit_code (result s3) = exit_code (result s)"
    "command (result s3) = command (result s)" "status_trace s3 = status_trace s @ [''running'']"
    "spawned s3 = spawned s @ [(cmd, cwd, env)]" "job_dir (fs s3)"
    by (rule stream_process_within[OF assms(1)])
  from assms(2) have "r = Some e" "s' = s3"
    unfolding eq by simp_all
  then show ?thesis using f by simp
qed

lemma stream_process_cases:
  "stream_process dec cmd cwd env p s = (r, s') \<Longrightarrow>
     (\<exists>e. effective p = SpawnRaises e \<and> r = Some e \<and> s' = s) \<or>
     (\<exists>t0 lines e. effective p = Runs t0 lines (Raises e) \<and> r = Some e \<and>
        status (result s') = ''running'' \<and> exit_code (result s') = exit_code (result s) \<and>
        command (result s') = command (result s) \<and>
        status_trace s' = status_trace s @ [''running''] \<and>
        spawned s' = spawned s @ [(cmd, cwd, env)] \<and> job_dir (fs s')) \<or>
     (\<exists>t0 lines code t1. effective p = Runs t0 lines (Exits code t1) \<and> r = None \<and>
        status (result s') = (if code = 0 then ''passed'' else ''failed'') \<and>
        exit_code (result s') = Some code \<and>
        command (result s') = command (result s) \<and>
        status_trace s' = status_trace s @ [''running'', if code = 0 then ''passed'' else ''failed''] \<and>
        spawned s' = spawned s @ [(cmd, cwd, env)] \<and> job_dir (fs s'))"
proof -
  assume "stream_process dec cmd cwd env p s = (r, s')"
  then have a: "stream_process dec cmd cwd env (effective p) s = (r, s')"
    by (simp only: stream_process_effective[symmetric])
  show ?thesis
  proof (cases "effective p")
    case (SpawnRaises e)
    with a show ?thesis by (simp add: stream_process_def)
  next
    case (Runs t0 lines fin)
    then have w: "within_limit lines" by (rule effective_within)
    show ?thesis
    proof (cases fin)
      case (Exits code t1)
      with a Runs stream_process_exits[OF w, of dec cmd cwd env t0 code t1 s r s'] show ?thesis by simp
    next
      case (Raises e)
      with a Runs stream_process_raises[OF w, of dec cmd cwd env t0 e s r s'] show ?thesis by simp
    qed
  qed
qed

lemma last_compile_command: "last (compile_command mvnw e batch) = ''test-compile''"
  by (simp add: compile_command_def Let_def)

lemma last_build_maven_command:
  "hd (last (build_maven_command mvnw e bdir dur batch rss xmx)) = CHR ''o''"
  by (simp add: build_maven_command_def Let_def)

lemma commands_differ:
  "compile_command mvnw e batch \<noteq> build_maven_command mvnw e bdir dur batch rss xmx"
proof
  assume "compile_command mvnw e batch = build_maven_command mvnw e bdir dur batch rss xmx"
  then have "hd (last (compile_command mvnw e batch)) = CHR ''o''"
    by (simp add: last_build_maven_command)
  then show False by (simp add: last_compile_command)
qed


lemma build_maven_command_bdir:
  "build_maven_command mvnw e b1 dur batch rss xmx = build_maven_command mvnw e b2 dur batch rss xmx"
  by (simp add: build_maven_command_def)




lemma isolate_raises:
  "work (fs s) = None \<Longrightarrow> copy jenv = CopyRaises ex partial \<Longrightarrow>
   isolate base wd jenv s =
     Inl (ex, s\<lparr>fs := (fs s)\<lparr>job_dir := (job_dir (fs s) \<or> partial \<noteq> None), work := partial\<rparr>\<rparr>)"
  by (simp add: isolate_def)

lemma isolate_ok:
  "work (fs s) \<noteq> None \<or> copy jenv = CopyOk \<Longrightarrow>
   isolate base wd jenv s = Inr (isolated base wd jenv s)"
proof (cases "work (fs s) = None")
  case True
  assume "work (fs s) \<noteq> None \<or> copy jenv = CopyOk"
  with True have "copy jenv = CopyOk" by simp
  with True show ?thesis by (simp add: isolate_def isolated_def Let_def)
next
  case False
  then obtain w where "work (fs s) = Some w" by auto
  then show ?thesis by (simp add: isolate_def isolated_def Let_def)
qed

lemma isolated_facts:
  "status_trace (isolated base wd jenv s) = status_trace s"
  "spawned (isolated base wd jenv s) = spawned s"
  "status (result (isolated base wd jenv s)) = status (result s)"
  "exit_code (result (isolated base wd jenv s)) = exit_code (result s)"
  "job_dir (fs (isolated base wd jenv s)) = (job_dir (fs s) \<or> work (fs s) = None)"
  by (cases "work (fs s)"; simp add: isolated_def Let_def)+


lemma run_phase_cases:
  assumes "run_phase dec cmd wd env p now s = (r, s')"
  shows
    "command (result s') = Some cmd \<and>
     job_dir (fs s') = (job_dir (fs s) \<or> (\<exists>t0 lines fin. effective p = Runs t0 lines fin)) \<and>
     ((effective p = SpawnRaises CancelledError \<and> r = Some CancelledError \<and>
         status_trace s' = status_trace s @ [''cancelled''] \<and> spawned s' = spawned s \<and>
         status (result s') = ''cancelled'' \<and> exit_code (result s') = exit_code (result s)) \<or>
      (\<exists>ex. effective p = SpawnRaises ex \<and> ex \<noteq> CancelledError \<and> r = None \<and>
         status_trace s' = status_trace s @ [''failed''] \<and> spawned s' = spawned s \<and>
         status (result s') = ''failed'' \<and> exit_code (result s') = exit_code (result s)) \<or>
      (\<exists>t0 lines. effective p = Runs t0 lines (Raises CancelledError) \<and> r = Some CancelledError \<and>
         status_trace s' = status_trace s @ [''running'', ''cancelled''] \<and>
         spawned s' = spawned s @ [(cmd, wd, env)] \<and> status (result s') = ''cancelled'' \<and>
         exit_code (result s') = exit_code (result s)) \<or>
      (\<exists>t0 lines ex. effective p = Runs t0 lines (Raises ex) \<and> ex \<noteq> CancelledError \<and> r = None \<and>
         status_trace s' = status_trace s @ [''running'', ''failed''] \<and>
         spawned s' = spawned s @ [(cmd, wd, env)] \<and> status (result s') = ''failed'' \<and>
         exit_code (result s') = exit_code (result s)) \<or>
      (\<exists>t0 lines code t1. effective p = Runs t0 lines (Exits code t1) \<and> r = None \<and>
         status_trace s' = status_trace s @ [''running'', if code = 0 then ''passed'' else ''failed''] \<and>
         spawned s' = spawned s @ [(cmd, wd, env)] \<and>
         status (result s') = (if code = 0 then ''passed'' else ''failed'') \<and>
         exit_code (result s') = Some code))"
proof -
  define s1 where "s1 = s\<lparr>result := (result s)\<lparr>command := Some cmd\<rparr>\<rparr>"
  obtain r1 s2 where sp: "stream_process dec cmd wd env p s1 = (r1, s2)"
    by (cases "stream_process dec cmd wd env p s1") auto
  have rp: "(r, s') = (case (r1, s2) of
           (None, s) \<Rightarrow> (None, s)
         | (Some e, s) \<Rightarrow>
             if e = CancelledError
             then (Some e,
                   append_log ''[Cancelled]''
                     (set_status ''cancelled'' s)
                        \<lparr>result := (result (set_status ''cancelled'' s))\<lparr>end_time := Some now\<rparr>\<rparr>)
             else if is_Exception e
             then (None,
                   append_log ''[Runner Exception]''
                     (set_status ''failed'' s)
                        \<lparr>result := (result (set_status ''failed'' s))\<lparr>end_time := Some now\<rparr>\<rparr>)
             else (Some e, s))"
    using assms sp by (simp add: run_phase_def s1_def Let_def)
  from stream_process_cases[OF sp] show ?thesis
  proof (elim disjE exE conjE)
    fix e assume "effective p = SpawnRaises e" "r1 = Some e" "s2 = s1"
    then show ?thesis using rp
      by (cases "e = CancelledError")
         (auto simp: s1_def set_status_def append_log_def is_Exception_def)
  next
    fix t0 lines e
    assume "effective p = Runs t0 lines (Raises e)" "r1 = Some e" "status (result s2) = ''running''"
      "exit_code (result s2) = exit_code (result s1)" "command (result s2) = command (result s1)"
      "status_trace s2 = status_trace s1 @ [''running'']" "spawned s2 = spawned s1 @ [(cmd, wd, env)]"
      "job_dir (fs s2)"
    then show ?thesis using rp
      by (cases "e = CancelledError")
         (auto simp: s1_def set_status_def append_log_def is_Exception_def)
  next
    fix t0 lines code t1
    assume "effective p = Runs t0 lines (Exits code t1)" "r1 = None"
      "status (result s2) = (if code = 0 then ''passed'' else ''failed'')"
      "exit_code (result s2) = Some code" "command (result s2) = command (result s1)"
      "status_trace s2 = status_trace s1 @ [''running'', if code = 0 then ''passed'' else ''failed'']"
      "spawned s2 = spawned s1 @ [(cmd, wd, env)]" "job_dir (fs s2)"
    then show ?thesis using rp
      by (auto simp: s1_def)
  qed
qed

lemma run_job_copy_raises:
  assumes "work (fs s0) = None" and "copy jenv = CopyRaises ex partial"
  shows "run_job dec base mvnw e dur env_base batch rss xmx jenv s0 =
     (Some ex, (set_status ''queued'' s0)
        \<lparr>fs := (fs s0)\<lparr>job_dir := (job_dir (fs s0) \<or> partial \<noteq> None), work := partial\<rparr>\<rparr>)"
proof -
  have w: "work (fs (set_status ''queued'' s0)) = None"
    using assms(1) by (simp add: set_status_def)
  show ?thesis
    unfolding run_job_def Let_def isolate_raises[OF w assms(2)]
    by (simp add: set_status_def)
qed

lemma run_job_compile:
  assumes "work (fs s0) \<noteq> None \<or> copy jenv = CopyOk"
  obtains wd envc env sP where
     "status_trace sP = status_trace s0 @ [''queued'']" "spawned sP = spawned s0"
     "status (result sP) = ''queued''" "command (result sP) = Some (compile_command mvnw e batch)"
     "job_dir (fs sP) = (job_dir (fs s0) \<or> work (fs s0) = None)"
     "exit_code (result sP) = exit_code (result s0)"
     "run_job dec base mvnw e dur env_base batch rss xmx jenv s0 =
       (case stream_process dec (compile_command mvnw e batch) wd envc (compile jenv) sP of
          (Some ex, s) \<Rightarrow> (Some ex, s)
        | (None, s) \<Rightarrow>
            if exit_code (result s) \<noteq> Some 0 then (None, s)
            else run_phase dec (build_maven_command mvnw e (build_dir (result s)) dur batch rss xmx)
                   wd env (run jenv) (t_except jenv) s)"
proof -
  define s1 where "s1 = set_status ''queued'' s0"
  define wd where "wd = path_join (parent (log_path (result s1))) ''work''"
  have w: "work (fs s1) \<noteq> None \<or> copy jenv = CopyOk"
    using assms by (simp add: s1_def set_status_def)
  define sP where "sP = (isolated base wd jenv s1)
      \<lparr>result := (result (isolated base wd jenv s1))\<lparr>command := Some (compile_command mvnw e batch)\<rparr>\<rparr>"
  define envc where "envc =
     env_base |` (- {''JAZZER_FUZZ'', ''JAZZER_FLAGS'', ''ASAN_OPTIONS'', ''JAVA_TOOL_OPTIONS''})"
  define env where "env =
     (if (env_base(''JAZZER_FINDINGS_DIR'' \<mapsto> findings_dir (result s1))) ''JAZZER_FUZZ'' = None
      then (env_base(''JAZZER_FINDINGS_DIR'' \<mapsto> findings_dir (result s1)))(''JAZZER_FUZZ'' \<mapsto> ''1'')
      else env_base(''JAZZER_FINDINGS_DIR'' \<mapsto> findings_dir (result s1)))
       (''JAZZER_FLAGS'' \<mapsto> ''-rss_limit_mb='' @ str_int rss)"
  have f1: "status_trace sP = status_trace s0 @ [''queued'']"
    and f2: "spawned sP = spawned s0"
    and f3: "status (result sP) = ''queued''"
    and f4: "command (result sP) = Some (compile_command mvnw e batch)"
    and f5: "job_dir (fs sP) = (job_dir (fs s0) \<or> work (fs s0) = None)"
    and f6: "exit_code (result sP) = exit_code (result s0)"
    by (simp_all add: sP_def isolated_facts s1_def set_status_def)
  have eq: "run_job dec base mvnw e dur env_base batch rss xmx jenv s0 =
       (case stream_process dec (compile_command mvnw e batch) wd envc (compile jenv) sP of
          (Some ex, s) \<Rightarrow> (Some ex, s)
        | (None, s) \<Rightarrow>
            if exit_code (result s) \<noteq> Some 0 then (None, s)
            else run_phase dec (build_maven_command mvnw e (build_dir (result s)) dur batch rss xmx)
                   wd env (run jenv) (t_except jenv) s)"
    unfolding run_job_def Let_def s1_def[symmetric] wd_def[symmetric] isolate_ok[OF w] sP_def
      envc_def env_def
    by simp
  show thesis by (rule that[OF f1 f2 f3 f4 f5 f6 eq])
qed


lemma run_job_outline:
  fixes dec base mvnw e dur env_base batch rss xmx jenv s0
  defines "out \<equiv> run_job dec base mvnw e dur env_base batch rss xmx jenv s0"
  assumes o: "job_outline (work (fs s0) \<noteq> None) jenv = (x, tr, n, c)"
  shows "fst out = x \<and>
     status_trace (snd out) = status_trace s0 @ tr \<and>
     status (result (snd out)) = last tr \<and>
     map fst (spawned (snd out)) =
       map fst (spawned s0) @
         take n [compile_command mvnw e batch, build_maven_command mvnw e [] dur batch rss xmx] \<and>
     exit_code (result (snd out)) = (case c of None \<Rightarrow> exit_code (result s0) | Some k \<Rightarrow> Some k)"
proof (cases "work (fs s0) = None \<and> (\<exists>ex partial. copy jenv = CopyRaises ex partial)")
  case True
  then obtain ex partial where w: "work (fs s0) = None" and cp: "copy jenv = CopyRaises ex partial"
    by blast
  from o w cp have "x = Some ex" "tr = [''queued'']" "n = 0" "c = None"
    by (simp_all add: job_outline_def)
  then show ?thesis
    unfolding out_def run_job_copy_raises[OF w cp] by (simp add: set_status_def)
next
  case False
  then have iso: "work (fs s0) \<noteq> None \<or> copy jenv = CopyOk"
    by (cases "copy jenv") auto
  have o1: "(case effective (compile jenv) of
           SpawnRaises ex \<Rightarrow> (Some ex, [''queued''], 0, None)
         | Runs t0 lines (Raises ex) \<Rightarrow> (Some ex, [''queued'', ''running''], 1, None)
         | Runs t0 lines (Exits code t1) \<Rightarrow>
             if code \<noteq> 0 then (None, [''queued'', ''running'', ''failed''], 1, Some code)
             else
               (case effective (run jenv) of
                  SpawnRaises ex \<Rightarrow>
                    if ex = CancelledError
                    then (Some ex, [''queued'', ''running'', ''passed'', ''cancelled''], 1, Some 0)
                    else (None, [''queued'', ''running'', ''passed'', ''failed''], 1, Some 0)
                | Runs t2 lines2 (Raises ex) \<Rightarrow>
                    if ex = CancelledError
                    then (Some ex, [''queued'', ''running'', ''passed'', ''running'', ''cancelled''],
                          2, Some 0)
                    else (None, [''queued'', ''running'', ''passed'', ''running'', ''failed''],
                          2, Some 0)
                | Runs t2 lines2 (Exits code2 t3) \<Rightarrow>
                    (None,
                     [''queued'', ''running'', ''passed'', ''running'',
                      if code2 = 0 then ''passed'' else ''failed''],
                     2, Some code2))) = (x, tr, n, c)"
    using o iso by (cases "work (fs s0)"; cases "copy jenv"; simp add: job_outline_def)
  obtain wd envc env sP where
     f1: "status_trace sP = status_trace s0 @ [''queued'']" and f2: "spawned sP = spawned s0" and
     f3: "status (result sP) = ''queued''" and
     f4: "command (result sP) = Some (compile_command mvnw e batch)" and
     f5: "job_dir (fs sP) = (job_dir (fs s0) \<or> work (fs s0) = None)" and
     f6: "exit_code (result sP) = exit_code (result s0)" and
     eq: "run_job dec base mvnw e dur env_base batch rss xmx jenv s0 =
       (case stream_process dec (compile_command mvnw e batch) wd envc (compile jenv) sP of
          (Some ex, s) \<Rightarrow> (Some ex, s)
        | (None, s) \<Rightarrow>
            if exit_code (result s) \<noteq> Some 0 then (None, s)
            else run_phase dec (build_maven_command mvnw e (build_dir (result s)) dur batch rss xmx)
                   wd env (run jenv) (t_except jenv) s)"
    by (rule run_job_compile[OF iso])
  obtain r1 s2 where sp: "stream_process dec (compile_command mvnw e batch) wd envc (compile jenv) sP = (r1, s2)"
    by (cases "stream_process dec (compile_command mvnw e batch) wd envc (compile jenv) sP") auto
  from stream_process_cases[OF sp] show ?thesis
  proof (elim disjE exE conjE)
    fix ex assume a: "effective (compile jenv) = SpawnRaises ex" "r1 = Some ex" "s2 = sP"
    from o1 a have "x = Some ex" "tr = [''queued'']" "n = 0" "c = None" by simp_all
    then show ?thesis unfolding out_def eq sp using a f1 f2 f3 f6 by simp
  next
    fix t0 lines ex
    assume a: "effective (compile jenv) = Runs t0 lines (Raises ex)" "r1 = Some ex"
      "status (result s2) = ''running''" "exit_code (result s2) = exit_code (result sP)"
      "status_trace s2 = status_trace sP @ [''running'']"
      "spawned s2 = spawned sP @ [(compile_command mvnw e batch, wd, envc)]"
    from o1 a have "x = Some ex" "tr = [''queued'', ''running'']" "n = 1" "c = None" by simp_all
    then show ?thesis unfolding out_def eq sp using a f1 f2 f3 f6 by simp
  next
    fix t0 lines code t1
    assume a: "effective (compile jenv) = Runs t0 lines (Exits code t1)" "r1 = None"
      "status (result s2) = (if code = 0 then ''passed'' else ''failed'')"
      "exit_code (result s2) = Some code"
      "status_trace s2 = status_trace sP @ [''running'', if code = 0 then ''passed'' else ''failed'']"
      "spawned s2 = spawned sP @ [(compile_command mvnw e batch, wd, envc)]"
    show ?thesis
    proof (cases "code = 0")
      case False
      with o1 a have "x = None" "tr = [''queued'', ''running'', ''failed'']" "n = 1" "c = Some code"
        by simp_all
      then show ?thesis unfolding out_def eq sp using a f1 f2 False by simp
    next
      case True
      define MC where "MC = build_maven_command mvnw e (build_dir (result s2)) dur batch rss xmx"
      have mc: "build_maven_command mvnw e [] dur batch rss xmx = MC"
        unfolding MC_def by (rule build_maven_command_bdir)
      have eq2: "out = run_phase dec MC wd env (run jenv) (t_except jenv) s2"
        unfolding out_def eq sp MC_def using a True by simp
      obtain r s' where rp: "run_phase dec MC wd env (run jenv) (t_except jenv) s2 = (r, s')"
        by (cases "run_phase dec MC wd env (run jenv) (t_except jenv) s2") auto
      have s2f: "status_trace s2 = status_trace s0 @ [''queued'', ''running'', ''passed'']"
        "map fst (spawned s2) = map fst (spawned s0) @ [compile_command mvnw e batch]"
        "exit_code (result s2) = Some 0"
        using a f1 f2 True by simp_all
      have o2: "(case effective (run jenv) of
                  SpawnRaises ex \<Rightarrow>
                    if ex = CancelledError
                    then (Some ex, [''queued'', ''running'', ''passed'', ''cancelled''], 1, Some 0)
                    else (None, [''queued'', ''running'', ''passed'', ''failed''], 1, Some 0)
                | Runs t2 lines2 (Raises ex) \<Rightarrow>
                    if ex = CancelledError
                    then (Some ex, [''queued'', ''running'', ''passed'', ''running'', ''cancelled''],
                          2, Some 0)
                    else (None, [''queued'', ''running'', ''passed'', ''running'', ''failed''],
                          2, Some 0)
                | Runs t2 lines2 (Exits code2 t3) \<Rightarrow>
                    (None,
                     [''queued'', ''running'', ''passed'', ''running'',
                      if code2 = 0 then ''passed'' else ''failed''],
                     2, Some code2)) = (x, tr, n, c)"
        using o1 a True by simp
      from run_phase_cases[OF rp] have
        cases: "(effective (run jenv) = SpawnRaises CancelledError \<and> r = Some CancelledError \<and>
         status_trace s' = status_trace s2 @ [''cancelled''] \<and> spawned s' = spawned s2 \<and>
         status (result s') = ''cancelled'' \<and> exit_code (result s') = exit_code (result s2)) \<or>
      (\<exists>ex. effective (run jenv) = SpawnRaises ex \<and> ex \<noteq> CancelledError \<and> r = None \<and>
         status_trace s' = status_trace s2 @ [''failed''] \<and> spawned s' = spawned s2 \<and>
         status (result s') = ''failed'' \<and> exit_code (result s') = exit_code (result s2)) \<or>
      (\<exists>t0 lines. effective (run jenv) = Runs t0 lines (Raises CancelledError) \<and> r = Some CancelledError \<and>
         status_trace s' = status_trace s2 @ [''running'', ''cancelled''] \<and>
         spawned s' = spawned s2 @ [(MC, wd, env)] \<and> status (result s') = ''cancelled'' \<and>
         exit_code (result s') = exit_code (result s2)) \<or>
      (\<exists>t0 lines ex. effective (run jenv) = Runs t0 lines (Raises ex) \<and> ex \<noteq> CancelledError \<and> r = None \<and>
         status_trace s' = status_trace s2 @ [''running'', ''failed''] \<and>
         spawned s' = spawned s2 @ [(MC, wd, env)] \<and> status (result s') = ''failed'' \<and>
         exit_code (result s') = exit_code (result s2)) \<or>
      (\<exists>t0 lines code t1. effective (run jenv) = Runs t0 lines (Exits code t1) \<and> r = None \<and>
         status_trace s' = status_trace s2 @ [''running'', if code = 0 then ''passed'' else ''failed''] \<and>
         spawned s' = spawned s2 @ [(MC, wd, env)] \<and>
         status (result s') = (if code = 0 then ''passed'' else ''failed'') \<and>
         exit_code (result s') = Some code)"
        by blast
      from cases show ?thesis
      proof (elim disjE exE conjE)
        assume b: "effective (run jenv) = SpawnRaises CancelledError" "r = Some CancelledError"
          "status_trace s' = status_trace s2 @ [''cancelled'']" "spawned s' = spawned s2"
          "status (result s') = ''cancelled''" "exit_code (result s') = exit_code (result s2)"
        from o2 b have "x = Some CancelledError"
          "tr = [''queued'', ''running'', ''passed'', ''cancelled'']" "n = 1" "c = Some 0"
          by simp_all
        then show ?thesis unfolding eq2 rp using b s2f by simp
      next
        fix ex
        assume b: "effective (run jenv) = SpawnRaises ex" "ex \<noteq> CancelledError" "r = None"
          "status_trace s' = status_trace s2 @ [''failed'']" "spawned s' = spawned s2"
          "status (result s') = ''failed''" "exit_code (result s') = exit_code (result s2)"
        from o2 b have "x = None"
          "tr = [''queued'', ''running'', ''passed'', ''failed'']" "n = 1" "c = Some 0"
          by simp_all
        then show ?thesis unfolding eq2 rp using b s2f by simp
      next
        fix t0 lines
        assume b: "effective (run jenv) = Runs t0 lines (Raises CancelledError)" "r = Some CancelledError"
          "status_trace s' = status_trace s2 @ [''running'', ''cancelled'']"
          "spawned s' = spawned s2 @ [(MC, wd, env)]"
          "status (result s') = ''cancelled''" "exit_code (result s') = exit_code (result s2)"
        from o2 b have "x = Some CancelledError"
          "tr = [''queued'', ''running'', ''passed'', ''running'', ''cancelled'']" "n = 2" "c = Some 0"
          by simp_all
        then show ?thesis unfolding eq2 rp mc using b s2f by simp
      next
        fix t0 lines ex
        assume b: "effective (run jenv) = Runs t0 lines (Raises ex)" "ex \<noteq> CancelledError" "r = None"
          "status_trace s' = status_trace s2 @ [''running'', ''failed'']"
          "spawned s' = spawned s2 @ [(MC, wd, env)]"
          "status (result s') = ''failed''" "exit_code (result s') = exit_code (result s2)"
        from o2 b have "x = None"
          "tr = [''queued'', ''running'', ''passed'', ''running'', ''failed'']" "n = 2" "c = Some 0"
          by simp_all
        then show ?thesis unfolding eq2 rp mc using b s2f by simp
      next
        fix t0 lines code2 t1
        assume b: "effective (run jenv) = Runs t0 lines (Exits code2 t1)" "r = None"
          "status_trace s' = status_trace s2 @ [''running'', if code2 = 0 then ''passed'' else ''failed'']"
          "spawned s' = spawned s2 @ [(MC, wd, env)]"
          "status (result s') = (if code2 = 0 then ''passed'' else ''failed'')"
          "exit_code (result s') = Some code2"
        from o2 b have "x = None"
          "tr = [''queued'', ''running'', ''passed'', ''running'', if code2 = 0 then ''passed'' else ''failed'']"
          "n = 2" "c = Some code2"
          by simp_all
        then show ?thesis unfolding eq2 rp mc using b s2f by simp
      qed
    qed
  qed
qed




lemma outline_traces:
  "job_outline hw jenv = (x, tr, n, c) \<Longrightarrow>
     tr \<in> {[''queued''], [''queued'', ''running''], [''queued'', ''running'', ''failed''],
           [''queued'', ''running'', ''passed'', ''cancelled''],
           [''queued'', ''running'', ''passed'', ''failed''],
           [''queued'', ''running'', ''passed'', ''running'', ''cancelled''],
           [''queued'', ''running'', ''passed'', ''running'', ''failed''],
           [''queued'', ''running'', ''passed'', ''running'', ''passed'']}"
  by (auto simp: job_outline_def
      split: bool.splits copy_outcome.splits proc_run.splits proc_end.splits if_splits)

lemma outline_returns:
  "job_outline hw jenv = (None, tr, n, c) \<Longrightarrow> last tr = ''passed'' \<or> last tr = ''failed''"
  by (auto simp: job_outline_def
      split: bool.splits copy_outcome.splits proc_run.splits proc_end.splits if_splits)


lemma example_lines:
  "within_limit [''BUILD SUCCESS'']" "within_limit [''fuzzing'', ''done'']"
  "within_limit [''COMPILATION ERROR'']" "within_limit [''== Java Exception'']"
  "within_limit [''fuzzing'']"
  by (simp_all add: within_limit_def over_limit_def line_limit_def)


lemma outline_env_compile_fails:
  "job_outline False env_compile_fails = (None, [''queued'', ''running'', ''failed''], 1, Some 1)"
  by (simp add: job_outline_def env_compile_fails_def env_pass_def example_lines lines_read_id)

lemma outline_env_pass:
  "job_outline False env_pass =
     (None, [''queued'', ''running'', ''passed'', ''running'', ''passed''], 2, Some 0)"
  by (simp add: job_outline_def env_pass_def example_lines lines_read_id)

lemma state_a_fresh:
  "work (fs state_a) = None" "spawned state_a = []" "status_trace state_a = []"
  by (simp_all add: state_a_def job_start_def fresh_def)


text \<open>
  Claim C5, as the code has it. The statuses that one call of \<open>run_job\<close> assigns, in
  order, are one of eight sequences. \<open>failed\<close> and \<open>cancelled\<close> are last wherever they
  occur, and so is the \<open>passed\<close> of the run phase; the \<open>passed\<close> that
  \<open>stream_process\<close> assigns at the end of a compile phase with exit code 0 is followed
  by another status. The statuses \<open>preparing\<close>, \<open>compiling\<close> and \<open>errored\<close> are
  never assigned.
\<close>

theorem run_job_status_sequences:
  fixes dec base mvnw e dur env_base batch rss xmx jenv st
  defines "out \<equiv> run_job dec base mvnw e dur env_base batch rss xmx jenv st"
  shows
    "take (length (status_trace st)) (status_trace (snd out)) = status_trace st \<and>
     drop (length (status_trace st)) (status_trace (snd out)) \<in>
       {[''queued''], [''queued'', ''running''], [''queued'', ''running'', ''failed''],
        [''queued'', ''running'', ''passed'', ''cancelled''],
        [''queued'', ''running'', ''passed'', ''failed''],
        [''queued'', ''running'', ''passed'', ''running'', ''cancelled''],
        [''queued'', ''running'', ''passed'', ''running'', ''failed''],
        [''queued'', ''running'', ''passed'', ''running'', ''passed'']}"
proof -
  obtain x tr n c where o: "job_outline (work (fs st) \<noteq> None) jenv = (x, tr, n, c)"
    by (cases "job_outline (work (fs st) \<noteq> None) jenv") auto
  from run_job_outline[OF o, of dec base mvnw e dur env_base batch rss xmx]
  have "status_trace (snd out) = status_trace st @ tr"
    by (simp add: out_def)
  then show ?thesis using outline_traces[OF o] by simp
qed

text \<open>
  The claim as stated is false: in a job whose two phases exit with 0 the terminal
  status \<open>passed\<close> is assigned after the compile phase and replaced by \<open>running\<close>
  when the run phase starts.
\<close>

theorem passed_is_left_counterexample:
  "\<not> terminal_absorbing
       (status_trace (snd (run_job (\<lambda>l. l) ''/repo'' ''/repo/mvnw'' exec_a ''5s'' Map.empty True 1024 700
          env_pass state_a)))"
proof -
  have o: "job_outline (work (fs state_a) \<noteq> None) env_pass =
       (None, [''queued'', ''running'', ''passed'', ''running'', ''passed''], 2, Some 0)"
    by (simp add: state_a_fresh outline_env_pass)
  from run_job_outline[OF o, of "\<lambda>l. l" "''/repo''" "''/repo/mvnw''" exec_a "''5s''" Map.empty True 1024 700]
  have "status_trace (snd (run_job (\<lambda>l. l) ''/repo'' ''/repo/mvnw'' exec_a ''5s'' Map.empty True 1024 700
          env_pass state_a)) = [''queued'', ''running'', ''passed'', ''running'', ''passed'']"
    by (simp add: state_a_fresh)
  then show ?thesis by (simp add: terminal_def)
qed

subsection \<open>The report\<close>

lemma status_report_entry: "t_status (report_entry relpath base r) = status r"
  by (simp add: report_entry_def)

lemma count_sorted_entries:
  "length [t \<leftarrow> map (\<lambda>(k, r). report_entry relpath base r) (sort_key fst results). t_status t = v] =
     count_status v results"
proof -
  have "[t \<leftarrow> map (\<lambda>(k, r). report_entry relpath base r) (sort_key fst results). t_status t = v] =
      map (\<lambda>(k, r). report_entry relpath base r)
        (sort_key fst [x \<leftarrow> results. status (snd x) = v])"
    by (simp add: filter_map o_def case_prod_unfold status_report_entry filter_sort)
  then show ?thesis
    by (simp add: count_status_def filter_map o_def)
qed

lemma tests_of_report:
  "r_tests (make_report_json relpath now results project prof dur conc mvn outd base) =
     map (\<lambda>(k, r). report_entry relpath base r) (sort_key fst results)"
  by (simp add: make_report_json_def Let_def)

lemma summary_of_report:
  "s_total (r_summary (make_report_json relpath now results project prof dur conc mvn outd base)) =
     length results"
  "s_passed (r_summary (make_report_json relpath now results project prof dur conc mvn outd base)) =
     count_status ''passed'' results"
  "s_failed (r_summary (make_report_json relpath now results project prof dur conc mvn outd base)) =
     count_status ''failed'' results"
  "s_cancelled (r_summary (make_report_json relpath now results project prof dur conc mvn outd base)) =
     count_status ''cancelled'' results"
  by (simp_all add: make_report_json_def Let_def)

text \<open>
  Claim C6. For every results dictionary, of any size, the summary of the report made by
  \<open>make_report_json\<close> counts the entries of the same report: \<open>total\<close> is the number
  of entries, and \<open>passed\<close>, \<open>failed\<close> and \<open>cancelled\<close> are the numbers of entries
  with that status. For the empty dictionary the report has no entries, and its counters
  and its duration are 0; the function has no failing branch.
\<close>

theorem report_summary_counts:
  fixes relpath now results project prof dur conc mvn outd base
  defines "rep \<equiv> make_report_json relpath now results project prof dur conc mvn outd base"
    and "rep0 \<equiv> make_report_json relpath now [] project prof dur conc mvn outd base"
  shows
    "s_total (r_summary rep) = length results \<and>
     s_total (r_summary rep) = length (r_tests rep) \<and>
     s_passed (r_summary rep) = length [t \<leftarrow> r_tests rep. t_status t = ''passed''] \<and>
     s_failed (r_summary rep) = length [t \<leftarrow> r_tests rep. t_status t = ''failed''] \<and>
     s_cancelled (r_summary rep) = length [t \<leftarrow> r_tests rep. t_status t = ''cancelled''] \<and>
     r_tests rep0 = [] \<and>
     r_summary rep0 =
       \<lparr>s_total = 0, s_passed = 0, s_failed = 0, s_cancelled = 0, s_duration_seconds = 0\<rparr>"
proof -
  have "length (r_tests rep) = length results"
    unfolding rep_def tests_of_report by simp
  moreover have "r_tests rep0 = []"
    unfolding rep0_def tests_of_report by simp
  moreover have "r_summary rep0 =
       \<lparr>s_total = 0, s_passed = 0, s_failed = 0, s_cancelled = 0, s_duration_seconds = 0\<rparr>"
    unfolding rep0_def by (simp add: make_report_json_def count_status_def)
  ultimately show ?thesis
    unfolding rep_def summary_of_report tests_of_report count_sorted_entries by simp
qed


subsection \<open>The admission gate\<close>

lemma filter_update_length:
  "i < length xs \<Longrightarrow>
     length (filter P (xs[i := y])) + (if P (xs ! i) then 1 else 0) =
     length (filter P xs) + (if P y then 1 else 0)"
proof (induction xs arbitrary: i)
  case Nil
  then show ?case by simp
next
  case (Cons x xs)
  show ?case
  proof (cases i)
    case 0
    then show ?thesis by simp
  next
    case (Suc j)
    with Cons.prems have "j < length xs" by simp
    from Cons.IH[OF this] Suc show ?thesis by simp
  qed
qed

lemma holding_simps:
  "holding (Holding v)" "\<not> holding Waiting" "\<not> holding Released"
  by (simp_all add: holding_def)

lemma gate_step_invariant:
  assumes "gate_step g g'"
  shows "permits g' + active g' = permits g + active g \<and> length (phases g') = length (phases g)"
  using assms
proof (cases rule: gate_step.cases)
  case (acquire i)
  from filter_update_length[OF acquire(2), of holding "Holding ''queued''"] acquire
  show ?thesis by (simp add: active_def holding_simps)
next
  case (progress i v v')
  from filter_update_length[OF progress(2), of holding "Holding v'"] progress
  show ?thesis by (simp add: active_def holding_simps)
next
  case (release i v)
  from filter_update_length[OF release(2), of holding Released] release
  show ?thesis by (simp add: active_def holding_simps)
qed

lemma reachable_invariant:
  "reachable cap n g \<Longrightarrow> permits g + active g = cap \<and> length (phases g) = n"
proof (induction rule: reachable.induct)
  case (start cap n)
  show ?case by (simp add: gate_init_def active_def holding_simps)
next
  case (step cap n g g')
  with gate_step_invariant[OF step.hyps(2)] show ?case by simp
qed

lemma running_le_holding:
  "length [p \<leftarrow> ps. p = Holding ''running''] \<le> length [p \<leftarrow> ps. holding p]"
  by (induction ps) (auto simp: holding_simps)

text \<open>
  Claim C9. In every state that a run with \<open>cap\<close> permits and \<open>n\<close> tasks can reach,
  by any interleaving of acquisitions, status changes and releases, the number of tasks
  inside \<open>async with sem\<close>, which are the jobs that are preparing, compiling or
  running, is at most \<open>cap\<close>; so is the number of jobs whose status is \<open>running\<close>.
  The free permits and the tasks holding one always add up to \<open>cap\<close>.
\<close>

theorem admission_ceiling_respected:
  "reachable cap n g \<Longrightarrow>
     active g \<le> cap \<and> length [p \<leftarrow> phases g. p = Holding ''running''] \<le> cap \<and>
     permits g + active g = cap"
  using reachable_invariant[of cap n g] running_le_holding[of "phases g"]
  by (simp add: active_def)

lemma gate_example_reachable: "reachable 1 3 gate_example"
proof -
  let ?q = "Holding ''queued''"
  have r0: "reachable 1 3 \<lparr>permits = 1, phases = [Waiting, Waiting, Waiting]\<rparr>"
    using reachable.start[of 1 3] by (simp add: gate_init_def numeral_3_eq_3)
  have "gate_step \<lparr>permits = 1, phases = [Waiting, Waiting, Waiting]\<rparr>
          \<lparr>permits = 0, phases = [Waiting, ?q, Waiting]\<rparr>"
    using gate_step.acquire[of 1 "\<lparr>permits = 1, phases = [Waiting, Waiting, Waiting]\<rparr>"] by simp
  from reachable.step[OF r0 this]
  have r1: "reachable 1 3 \<lparr>permits = 0, phases = [Waiting, ?q, Waiting]\<rparr>" .
  have "gate_step \<lparr>permits = 0, phases = [Waiting, ?q, Waiting]\<rparr>
          \<lparr>permits = 1, phases = [Waiting, Released, Waiting]\<rparr>"
    using gate_step.release[of 1 "\<lparr>permits = 0, phases = [Waiting, ?q, Waiting]\<rparr>" "''queued''"] by simp
  from reachable.step[OF r1 this]
  have r2: "reachable 1 3 \<lparr>permits = 1, phases = [Waiting, Released, Waiting]\<rparr>" .
  have "gate_step \<lparr>permits = 1, phases = [Waiting, Released, Waiting]\<rparr>
          \<lparr>permits = 0, phases = [?q, Released, Waiting]\<rparr>"
    using gate_step.acquire[of 0 "\<lparr>permits = 1, phases = [Waiting, Released, Waiting]\<rparr>"] by simp
  from reachable.step[OF r2 this]
  have r3: "reachable 1 3 \<lparr>permits = 0, phases = [?q, Released, Waiting]\<rparr>" .
  have "gate_step \<lparr>permits = 0, phases = [?q, Released, Waiting]\<rparr>
          \<lparr>permits = 0, phases = [Holding ''running'', Released, Waiting]\<rparr>"
    using gate_step.progress[of 0 "\<lparr>permits = 0, phases = [?q, Released, Waiting]\<rparr>" "''queued''" "''running''"]
    by simp
  from reachable.step[OF r3 this]
  show ?thesis by (simp add: gate_example_def)
qed

theorem admission_ceiling_respected_witness:
  "reachable 1 3 gate_example \<and> active gate_example \<le> 1 \<and>
   length [p \<leftarrow> phases gate_example. p = Holding ''running''] \<le> 1 \<and>
   permits gate_example + active gate_example = 1"
  using admission_ceiling_respected[OF gate_example_reachable] gate_example_reachable by simp

subsection \<open>The drain loop\<close>

lemma foldl_update_keys:
  "fst ` set (foldl (\<lambda>d x. AList.update (kf x) (vf d x) d) acc xs) = fst ` set acc \<union> kf ` set xs"
  by (induction xs arbitrary: acc) (auto simp: dom_update)

lemma foldl_update_distinct:
  "distinct (map fst acc) \<Longrightarrow>
     distinct (map fst (foldl (\<lambda>d x. AList.update (kf x) (vf d x) d) acc xs))"
  by (induction xs arbitrary: acc) (auto simp: distinct_update)

lemma set_update_subset: "set (AList.update k v al) \<subseteq> insert (k, v) (set al)"
  by (induction al) auto

lemma foldl_update_values:
  "(\<forall>p \<in> set acc. P (snd p)) \<Longrightarrow> (\<forall>x \<in> set xs. P (vf x)) \<Longrightarrow>
     \<forall>p \<in> set (foldl (\<lambda>d x. AList.update (kf x) (vf x) d) acc xs). P (snd p)"
proof (induction xs arbitrary: acc)
  case Nil
  then show ?case by simp
next
  case (Cons x xs)
  have "\<forall>p \<in> set (AList.update (kf x) (vf x) acc). P (snd p)"
    using Cons.prems set_update_subset[of "kf x" "vf x" acc] by auto
  with Cons show ?case by simp
qed

lemma run_job_returns_settled:
  assumes "fst (run_job dec base mvnw e dur env_base batch rss xmx jenv st) = None"
  shows "settled (result (snd (run_job dec base mvnw e dur env_base batch rss xmx jenv st)))"
proof -
  obtain x tr n c where o: "job_outline (work (fs st) \<noteq> None) jenv = (x, tr, n, c)"
    by (cases "job_outline (work (fs st) \<noteq> None) jenv") auto
  from run_job_outline[OF o, of dec base mvnw e dur env_base batch rss xmx] assms
  have "x = None" and
    "status (result (snd (run_job dec base mvnw e dur env_base batch rss xmx jenv st))) = last tr"
    by simp_all
  with outline_returns[of "work (fs st) \<noteq> None" jenv tr n c] o show ?thesis
    by (simp add: settled_def)
qed

lemma run_one_returns_settled:
  "fst (run_one dec args mvnw environ results e jenv) = None \<Longrightarrow>
     settled (result (snd (run_one dec args mvnw environ results e jenv)))"
  by (cases "map_of results (execution_id e)") (simp_all add: run_one_def run_job_returns_settled)

lemma handle_done_settled:
  assumes h: "handle_done outd ts te execs k t (tasks, results) = Inr (tasks', results')"
    and t: "map_of tasks k = Some t"
    and q: "\<forall>p \<in> set tasks. fst (snd p) = None \<longrightarrow> settled (result (snd (snd p)))"
    and p: "\<forall>k r. map_of results k = Some r \<longrightarrow> k \<in> fst ` set tasks \<or> settled r"
    and d: "distinct (map fst results)"
  shows "(\<forall>p \<in> set tasks'. fst (snd p) = None \<longrightarrow> settled (result (snd (snd p)))) \<and>
         (\<forall>k r. map_of results' k = Some r \<longrightarrow> k \<in> fst ` set tasks' \<or> settled r) \<and>
         distinct (map fst results')"
proof -
  have kt: "(k, t) \<in> set tasks" using t by (rule map_of_SomeD)
  have sub: "set (AList.delete k tasks) \<subseteq> set tasks"
    by (auto simp: AList.delete_eq)
  have keys: "fst ` set (AList.delete k tasks) = fst ` set tasks - {k}"
    using delete_keys[of k tasks] by (metis list.set_map set_removeAll)
  have store: "settled res \<Longrightarrow> (tasks', results') = store_result k res (tasks, results) \<Longrightarrow> ?thesis" for res
  proof (cases "k = []")
    case True
    assume "(tasks', results') = store_result k res (tasks, results)"
    with True have "tasks' = tasks" "results' = results" by (simp_all add: store_result_def)
    with q p d show ?thesis by simp
  next
    case False
    assume s: "settled res" and "(tasks', results') = store_result k res (tasks, results)"
    with False have eq: "tasks' = AList.delete k tasks" "results' = AList.update k res results"
      by (simp_all add: store_result_def)
    show ?thesis
      unfolding eq using q p d s sub keys
      by (auto simp: update_conv' distinct_update split: if_splits)
  qed
  obtain raised js where tt: "t = (raised, js)" by (cases t)
  show ?thesis
  proof (cases raised)
    case None
    with q kt tt have "settled (result js)" by force
    moreover from h tt None have "(tasks', results') = store_result k (result js) (tasks, results)"
      by (simp add: handle_done_def)
    ultimately show ?thesis by (rule store)
  next
    case (Some ex)
    show ?thesis
    proof (cases "find (\<lambda>ev. execution_id ev = k) execs")
      case None
      with h tt Some have "tasks' = tasks" "results' = results"
        by (auto simp: handle_done_def split: if_splits)
      with q p d show ?thesis by simp
    next
      case (Some e)
      have "settled (failed_result outd ts te e)"
        by (simp add: settled_def failed_result_def)
      moreover from h tt \<open>raised = Some ex\<close> Some
      have "(tasks', results') = store_result k (failed_result outd ts te e) (tasks, results)"
        by (auto simp: handle_done_def split: if_splits)
      ultimately show ?thesis by (rule store)
    qed
  qed
qed

lemma drain_settled:
  "drain n outd ts te execs completion (tasks, results) = Some (Inr res) \<Longrightarrow>
   \<forall>p \<in> set tasks. fst (snd p) = None \<longrightarrow> settled (result (snd (snd p))) \<Longrightarrow>
   \<forall>k r. map_of results k = Some r \<longrightarrow> k \<in> fst ` set tasks \<or> settled r \<Longrightarrow>
   distinct (map fst results) \<Longrightarrow>
   \<forall>p \<in> set res. settled (snd p)"
proof (induction n arbitrary: tasks results)
  case 0
  then show ?case by simp
next
  case (Suc n)
  show ?case
  proof (cases "tasks = []")
    case True
    with Suc.prems(1) have "res = results" by simp
    moreover have "\<forall>p \<in> set results. settled (snd p)"
    proof
      fix p assume "p \<in> set results"
      with Suc.prems(4) have "map_of results (fst p) = Some (snd p)" by simp
      with Suc.prems(3) True show "settled (snd p)" by auto
    qed
    ultimately show ?thesis by simp
  next
    case False
    from Suc.prems(1) False obtain k t st' where
      t: "map_of tasks k = Some t" and
      h: "handle_done outd ts te execs k t (tasks, results) = Inr st'" and
      d: "drain n outd ts te execs completion st' = Some (Inr res)"
      by (auto split: option.splits sum.splits)
    obtain tasks' results' where st': "st' = (tasks', results')" by (cases st')
    from handle_done_settled[OF h[unfolded st'] t Suc.prems(2,3,4)]
    have inv: "\<forall>p \<in> set tasks'. fst (snd p) = None \<longrightarrow> settled (result (snd (snd p)))"
      "\<forall>k r. map_of results' k = Some r \<longrightarrow> k \<in> fst ` set tasks' \<or> settled r"
      "distinct (map fst results')"
      by simp_all
    from Suc.IH[OF d[unfolded st'] inv] show ?thesis .
  qed
qed

lemma update_new_key: "k \<notin> fst ` set al \<Longrightarrow> AList.update k v al = al @ [(k, v)]"
  by (induction al) auto

lemma foldl_update_fresh:
  "distinct (map kf xs) \<Longrightarrow> fst ` set acc \<inter> kf ` set xs = {} \<Longrightarrow>
     foldl (\<lambda>d x. AList.update (kf x) (vf x) d) acc xs = acc @ map (\<lambda>x. (kf x, vf x)) xs"
proof (induction xs arbitrary: acc)
  case Nil
  then show ?case by simp
next
  case (Cons x xs)
  from Cons.prems have new: "kf x \<notin> fst ` set acc" by auto
  have "fst ` set (acc @ [(kf x, vf x)]) \<inter> kf ` set xs = {}"
    using Cons.prems by auto
  with Cons.IH[of "acc @ [(kf x, vf x)]"] Cons.prems(1) new show ?case
    by (simp add: update_new_key)
qed

lemma update_as_map:
  "distinct (map fst al) \<Longrightarrow> k \<in> fst ` set al \<Longrightarrow>
     AList.update k v al = map (\<lambda>(k', r). if k' = k then (k, v) else (k', r)) al"
proof (induction al)
  case Nil
  then show ?case by simp
next
  case (Cons p al)
  show ?case
  proof (cases "fst p = k")
    case True
    with Cons.prems(1) have "k \<notin> fst ` set al" by auto
    then have "map (\<lambda>(k', r). if k' = k then (k, v) else (k', r)) al = al"
      by (induction al) auto
    with True show ?thesis by (cases p) simp
  next
    case False
    with Cons show ?thesis by (cases p) auto
  qed
qed

lemma find_distinct:
  "distinct (map f xs) \<Longrightarrow> x \<in> set xs \<Longrightarrow> find (\<lambda>y. f y = f x) xs = Some x"
  by (induction xs) (auto simp: image_iff)

lemma map_of_mapped:
  "distinct (map kf xs) \<Longrightarrow> x \<in> set xs \<Longrightarrow> map_of (map (\<lambda>x. (kf x, vf x)) xs) (kf x) = Some (vf x)"
  by (induction xs) (auto simp: image_iff)

lemma length_delete_less:
  assumes "k \<in> fst ` set al"
  shows "length (AList.delete k al) < length al"
proof -
  from assms obtain v where "(k, v) \<in> set al" by auto
  moreover have "\<not> (case (k, v) of (k', _) \<Rightarrow> k \<noteq> k')" by simp
  ultimately show ?thesis
    unfolding AList.delete_eq by (rule length_filter_less)
qed

lemma handle_done_recordable:
  "recordable t \<Longrightarrow> find (\<lambda>ev. execution_id ev = k) execs = Some e \<Longrightarrow>
     handle_done outd ts te execs k t st = Inr (store_result k (task_entry outd ts te e t) st)"
  by (cases t; cases "fst t") (auto simp: handle_done_def recordable_def task_entry_def)


lemma drain_total:
  assumes "distinct (map fst tasks)" and "distinct (map fst results)"
    and "fst ` set tasks \<subseteq> fst ` set results"
    and "[] \<notin> fst ` set tasks"
    and "fst ` set tasks \<subseteq> set completion"
    and "\<forall>p \<in> set tasks. recordable (snd p) \<and> (\<exists>e. find (\<lambda>ev. execution_id ev = fst p) execs = Some e)"
    and "length tasks < n"
  shows "drain n outd ts te execs completion (tasks, results) =
     Some (Inr (map (\<lambda>(k, r).
        (k, case map_of tasks k of None \<Rightarrow> r
            | Some t \<Rightarrow> task_entry outd ts te (the (find (\<lambda>ev. execution_id ev = k) execs)) t))
       results))"
  using assms
proof (induction n arbitrary: tasks results)
  case 0
  then show ?case by simp
next
  case (Suc n)
  show ?case
  proof (cases "tasks = []")
    case True
    have "map (\<lambda>(k, r). (k, r)) results = results" by (induction results) auto
    with True show ?thesis by simp
  next
    case False
    let ?E = "\<lambda>k. the (find (\<lambda>ev. execution_id ev = k) execs)"
    from False Suc.prems(5) have "\<exists>k \<in> set completion. k \<in> set (map fst tasks)"
      by (cases tasks) auto
    then obtain k where fk: "find (\<lambda>k. k \<in> set (map fst tasks)) completion = Some k"
      by (cases "find (\<lambda>k. k \<in> set (map fst tasks)) completion") (auto simp: find_None_iff)
    then have kin: "k \<in> fst ` set tasks"
      by (auto simp: find_Some_iff)
    then obtain t where t: "map_of tasks k = Some t"
      by (cases "map_of tasks k") (auto simp: map_of_eq_None_iff)
    then have kt: "(k, t) \<in> set tasks" by (rule map_of_SomeD)
    with Suc.prems(6) have rec: "recordable t"
      and "\<exists>e. find (\<lambda>ev. execution_id ev = k) execs = Some e" by auto
    then obtain e where e: "find (\<lambda>ev. execution_id ev = k) execs = Some e" by blast
    from kin Suc.prems(4) have kne: "k \<noteq> []" by metis
    let ?v = "task_entry outd ts te e t"
    have hd: "handle_done outd ts te execs k t (tasks, results) =
        Inr (AList.delete k tasks, AList.update k ?v results)"
      using handle_done_recordable[OF rec e] kne by (simp add: store_result_def)
    have step: "drain (Suc n) outd ts te execs completion (tasks, results) =
        drain n outd ts te execs completion (AList.delete k tasks, AList.update k ?v results)"
      using False fk t hd by simp
    have sub: "set (AList.delete k tasks) \<subseteq> set tasks"
      by (auto simp: AList.delete_eq)
    have kres: "k \<in> fst ` set results" using kin Suc.prems(3) by auto
    have p1: "distinct (map fst (AList.delete k tasks))"
      using Suc.prems(1) by (rule distinct_delete)
    have p2: "distinct (map fst (AList.update k ?v results))"
      using Suc.prems(2) by (rule distinct_update)
    have p3: "fst ` set (AList.delete k tasks) \<subseteq> fst ` set (AList.update k ?v results)"
      using dom_delete_subset[of k tasks] Suc.prems(3) by (auto simp: dom_update)
    have p4: "[] \<notin> fst ` set (AList.delete k tasks)"
      using Suc.prems(4) dom_delete_subset[of k tasks] by auto
    have p5: "fst ` set (AList.delete k tasks) \<subseteq> set completion"
      using Suc.prems(5) dom_delete_subset[of k tasks] by auto
    have p6: "\<forall>p \<in> set (AList.delete k tasks).
        recordable (snd p) \<and> (\<exists>e. find (\<lambda>ev. execution_id ev = fst p) execs = Some e)"
      using Suc.prems(6) sub by auto
    have p7: "length (AList.delete k tasks) < n"
      using length_delete_less[OF kin] Suc.prems(7) by simp
    have um: "AList.update k ?v results =
        map (\<lambda>(k', r). if k' = k then (k, ?v) else (k', r)) results"
      using Suc.prems(2) kres by (rule update_as_map)
    have fin: "map (\<lambda>(k', r).
        (k', case map_of (AList.delete k tasks) k' of None \<Rightarrow> r
            | Some t' \<Rightarrow> task_entry outd ts te (?E k') t'))
       (AList.update k ?v results) =
      map (\<lambda>(k', r).
        (k', case map_of tasks k' of None \<Rightarrow> r
            | Some t' \<Rightarrow> task_entry outd ts te (?E k') t'))
       results"
      unfolding um using t e
      by (auto simp: delete_conv')
    show ?thesis
      unfolding step Suc.IH[OF p1 p2 p3 p4 p5 p6 p7] fin ..
  qed
qed

subsection \<open>The run as a whole\<close>

lemma main_async_drain:
  assumes d: "distinct (map (\<lambda>p. execution_id (fst p)) specs)"
    and jobs: "0 < arg_jobs args" and nl: "\<not> arg_list args" and s: "specs \<noteq> []"
  shows "main_async fuel dec relpath args mvnw environ ts te specs completion =
     (case drain fuel (arg_out_dir args) ts te (map fst specs) completion
             (map (\<lambda>p. (execution_id (fst p), job_task dec args mvnw environ (fst p) (snd p))) specs,
              map (\<lambda>e. (execution_id e, new_result (arg_out_dir args) e)) (map fst specs)) of
        None \<Rightarrow> None
      | Some (Inl ex) \<Rightarrow> Some (Inl ex)
      | Some (Inr results) \<Rightarrow>
          Some (Inr \<lparr>rc = (if count_status ''failed'' results = 0 then 0 else 2),
                     final_results = results,
                     report_json = Some (make_report_json relpath te results ''lz4-java''
                        (arg_profile args) (arg_duration args) (arg_jobs args) mvnw
                        (arg_out_dir args) (arg_base_dir args))\<rparr>))"
proof -
  let ?outd = "arg_out_dir args"
  let ?execs = "map fst specs"
  define results0 where "results0 = map (\<lambda>e. (execution_id e, new_result ?outd e)) ?execs"
  define tasks0 where "tasks0 =
     map (\<lambda>p. (execution_id (fst p), job_task dec args mvnw environ (fst p) (snd p))) specs"
  have de: "distinct (map execution_id ?execs)"
    using d by (simp add: o_def)
  have r0: "foldl (\<lambda>d e. AList.update (execution_id e) (new_result ?outd e) d) [] ?execs = results0"
    unfolding results0_def using foldl_update_fresh[OF de, of "[]" "new_result ?outd"] by simp
  have ro: "run_one dec args mvnw environ results0 (fst p) (snd p) =
      job_task dec args mvnw environ (fst p) (snd p)" if "p \<in> set specs" for p
  proof -
    from that have "fst p \<in> set ?execs" by simp
    from map_of_mapped[OF de this, of "new_result ?outd"]
    have "map_of results0 (execution_id (fst p)) = Some (new_result ?outd (fst p))"
      by (simp add: results0_def)
    then show ?thesis
      by (simp add: run_one_def job_task_def job_start_def)
  qed
  have "foldl (\<lambda>d p. AList.update (execution_id (fst p))
           (run_one dec args mvnw environ results0 (fst p) (snd p)) d) [] specs =
        map (\<lambda>p. (execution_id (fst p), run_one dec args mvnw environ results0 (fst p) (snd p))) specs"
    using foldl_update_fresh[OF d, of "[]"
        "\<lambda>p. run_one dec args mvnw environ results0 (fst p) (snd p)"] by simp
  also have "\<dots> = tasks0"
    unfolding tasks0_def using ro by (intro map_cong) auto
  finally have t0: "foldl (\<lambda>d (e, jenv). AList.update (execution_id e)
           (run_one dec args mvnw environ results0 e jenv) d) [] specs = tasks0"
    by (simp add: case_prod_unfold)
  have e0: "?execs \<noteq> []" using s by simp
  show ?thesis
    unfolding main_async_def Let_def r0 t0 results0_def[symmetric] tasks0_def[symmetric]
    using nl e0 jobs by simp
qed

lemma main_async_total:
  assumes d: "distinct (map (\<lambda>p. execution_id (fst p)) specs)"
    and ne: "\<forall>p \<in> set specs. execution_id (fst p) \<noteq> []"
    and comp: "\<forall>p \<in> set specs. execution_id (fst p) \<in> set completion"
    and rec: "\<forall>p \<in> set specs. recordable (job_task dec args mvnw environ (fst p) (snd p))"
    and jobs: "0 < arg_jobs args" and nl: "\<not> arg_list args" and s: "specs \<noteq> []"
    and fuel: "length specs < fuel"
  shows "main_async fuel dec relpath args mvnw environ ts te specs completion =
     Some (Inr \<lparr>rc = (if count_status ''failed'' (own_entries dec args mvnw environ ts te specs) = 0
                      then 0 else 2),
               final_results = own_entries dec args mvnw environ ts te specs,
               report_json = Some (make_report_json relpath te
                   (own_entries dec args mvnw environ ts te specs) ''lz4-java''
                   (arg_profile args) (arg_duration args) (arg_jobs args) mvnw
                   (arg_out_dir args) (arg_base_dir args))\<rparr>)"
proof -
  let ?outd = "arg_out_dir args"
  let ?execs = "map fst specs"
  define results0 where "results0 = map (\<lambda>e. (execution_id e, new_result ?outd e)) ?execs"
  define tasks0 where "tasks0 =
     map (\<lambda>p. (execution_id (fst p), job_task dec args mvnw environ (fst p) (snd p))) specs"
  have de: "distinct (map execution_id ?execs)"
    using d by (simp add: o_def)
  have q1: "distinct (map fst tasks0)"
    using d by (simp add: tasks0_def o_def)
  have q2: "distinct (map fst results0)"
    using de by (simp add: results0_def o_def)
  have "map fst tasks0 = map fst results0"
    by (simp add: tasks0_def results0_def o_def)
  then have "set (map fst tasks0) = set (map fst results0)" by simp
  then have q3: "fst ` set tasks0 \<subseteq> fst ` set results0"
    by simp
  have q4: "[] \<notin> fst ` set tasks0"
    using ne by (auto simp: tasks0_def)
  have q5: "fst ` set tasks0 \<subseteq> set completion"
    using comp by (auto simp: tasks0_def)
  have q6: "\<forall>p \<in> set tasks0. recordable (snd p) \<and>
      (\<exists>e. find (\<lambda>ev. execution_id ev = fst p) ?execs = Some e)"
  proof
    fix q assume "q \<in> set tasks0"
    then obtain p where p: "p \<in> set specs"
      and q: "q = (execution_id (fst p), job_task dec args mvnw environ (fst p) (snd p))"
      by (auto simp: tasks0_def)
    from p have "fst p \<in> set ?execs" by simp
    from find_distinct[OF de this] rec p q
    show "recordable (snd q) \<and> (\<exists>e. find (\<lambda>ev. execution_id ev = fst q) ?execs = Some e)"
      by simp
  qed
  have q7: "length tasks0 < fuel"
    using fuel by (simp add: tasks0_def)
  have fin: "map (\<lambda>(k, r).
        (k, case map_of tasks0 k of None \<Rightarrow> r
            | Some t \<Rightarrow> task_entry ?outd ts te (the (find (\<lambda>ev. execution_id ev = k) ?execs)) t))
       results0 = own_entries dec args mvnw environ ts te specs"
  proof -
    have "map (\<lambda>(k, r).
        (k, case map_of tasks0 k of None \<Rightarrow> r
            | Some t \<Rightarrow> task_entry ?outd ts te (the (find (\<lambda>ev. execution_id ev = k) ?execs)) t))
       results0 =
      map (\<lambda>p. (execution_id (fst p),
           case map_of tasks0 (execution_id (fst p)) of None \<Rightarrow> new_result ?outd (fst p)
            | Some t \<Rightarrow> task_entry ?outd ts te
                 (the (find (\<lambda>ev. execution_id ev = execution_id (fst p)) ?execs)) t)) specs"
      by (simp add: results0_def o_def)
    also have "\<dots> = own_entries dec args mvnw environ ts te specs"
      unfolding own_entries_def
    proof (intro map_cong refl)
      fix p assume p: "p \<in> set specs"
      then have "fst p \<in> set ?execs" by simp
      from find_distinct[OF de this]
      have f: "find (\<lambda>ev. execution_id ev = execution_id (fst p)) ?execs = Some (fst p)" .
      from map_of_mapped[OF d p, of "\<lambda>p. job_task dec args mvnw environ (fst p) (snd p)"]
      have m: "map_of tasks0 (execution_id (fst p)) =
          Some (job_task dec args mvnw environ (fst p) (snd p))"
        by (simp add: tasks0_def)
      show "(execution_id (fst p),
           case map_of tasks0 (execution_id (fst p)) of None \<Rightarrow> new_result ?outd (fst p)
            | Some t \<Rightarrow> task_entry ?outd ts te
                 (the (find (\<lambda>ev. execution_id ev = execution_id (fst p)) ?execs)) t) =
         (execution_id (fst p),
           task_entry ?outd ts te (fst p) (job_task dec args mvnw environ (fst p) (snd p)))"
        by (simp add: f m)
    qed
    finally show ?thesis .
  qed
  have dr: "drain fuel ?outd ts te ?execs completion (tasks0, results0) =
      Some (Inr (own_entries dec args mvnw environ ts te specs))"
    unfolding drain_total[OF q1 q2 q3 q4 q5 q6 q7] fin ..
  show ?thesis
    unfolding main_async_drain[OF d jobs nl s] results0_def[symmetric] tasks0_def[symmetric] dr
    by simp
qed

lemma main_async_returns:
  assumes m: "main_async fuel dec relpath args mvnw environ ts te specs completion = Some (Inr out)"
    and nl: "\<not> arg_list args" and s: "specs \<noteq> []"
  shows "(\<forall>p \<in> set (final_results out). settled (snd p)) \<and>
         rc out = (if count_status ''failed'' (final_results out) = 0 then 0 else 2)"
proof -
  let ?outd = "arg_out_dir args"
  let ?execs = "map fst specs"
  define results0 where
    "results0 = foldl (\<lambda>d e. AList.update (execution_id e) (new_result ?outd e) d) [] ?execs"
  define tasks0 where
    "tasks0 = foldl (\<lambda>d p. AList.update (execution_id (fst p))
                 (run_one dec args mvnw environ results0 (fst p) (snd p)) d) [] specs"
  have t0: "foldl (\<lambda>d (e, jenv). AList.update (execution_id e)
           (run_one dec args mvnw environ results0 e jenv) d) [] specs = tasks0"
    by (simp add: tasks0_def case_prod_unfold)
  have e0: "?execs \<noteq> []" using s by simp
  from m have m': "(if arg_jobs args < 0 then Some (Inl ValueError)
       else if arg_jobs args = 0 then None
       else (case drain fuel ?outd ts te ?execs completion (tasks0, results0) of
               None \<Rightarrow> None
             | Some (Inl ex) \<Rightarrow> Some (Inl ex)
             | Some (Inr results) \<Rightarrow>
                 Some (Inr \<lparr>rc = (if count_status ''failed'' results = 0 then 0 else 2),
                     final_results = results,
                     report_json = Some (make_report_json relpath te results ''lz4-java''
                        (arg_profile args) (arg_duration args) (arg_jobs args) mvnw
                        (arg_out_dir args) (arg_base_dir args))\<rparr>))) = Some (Inr out)"
    unfolding main_async_def Let_def results0_def[symmetric] t0
    using nl e0 by simp
  then obtain res where dr: "drain fuel ?outd ts te ?execs completion (tasks0, results0) = Some (Inr res)"
    and out: "out = \<lparr>rc = (if count_status ''failed'' res = 0 then 0 else 2),
                     final_results = res,
                     report_json = Some (make_report_json relpath te res ''lz4-java''
                        (arg_profile args) (arg_duration args) (arg_jobs args) mvnw
                        (arg_out_dir args) (arg_base_dir args))\<rparr>"
    by (auto split: if_splits option.splits sum.splits)
  have q: "\<forall>p \<in> set tasks0. fst (snd p) = None \<longrightarrow> settled (result (snd (snd p)))"
  proof -
    have "\<forall>p \<in> set tasks0. (\<lambda>t. fst t = None \<longrightarrow> settled (result (snd t))) (snd p)"
      unfolding tasks0_def
      by (rule foldl_update_values) (simp_all add: run_one_returns_settled)
    then show ?thesis by simp
  qed
  have k1: "fst ` set results0 = execution_id ` set ?execs"
    unfolding results0_def
    using foldl_update_keys[of execution_id "\<lambda>d x. new_result ?outd x" "[]" ?execs] by simp
  have k2: "fst ` set tasks0 = (\<lambda>p. execution_id (fst p)) ` set specs"
    unfolding tasks0_def
    using foldl_update_keys[of "\<lambda>p. execution_id (fst p)"
        "\<lambda>d x. run_one dec args mvnw environ results0 (fst x) (snd x)" "[]" specs] by simp
  have keys: "fst ` set results0 = fst ` set tasks0"
    unfolding k1 k2 by (simp add: image_image)
  have p: "\<forall>k r. map_of results0 k = Some r \<longrightarrow> k \<in> fst ` set tasks0 \<or> settled r"
  proof (intro allI impI)
    fix k r assume "map_of results0 k = Some r"
    then have "(k, r) \<in> set results0" by (rule map_of_SomeD)
    then have "k \<in> fst ` set results0" by force
    with keys show "k \<in> fst ` set tasks0 \<or> settled r" by simp
  qed
  have dd: "distinct (map fst results0)"
    unfolding results0_def
    by (rule foldl_update_distinct[where vf = "\<lambda>d x. new_result ?outd x"]) simp
  from drain_settled[OF dr q p dd] out show ?thesis by simp
qed


lemma main_async_total_ex:
  assumes "distinct (map (\<lambda>p. execution_id (fst p)) specs)"
    and "\<forall>p \<in> set specs. execution_id (fst p) \<noteq> []"
    and "\<forall>p \<in> set specs. execution_id (fst p) \<in> set completion"
    and "\<forall>p \<in> set specs. recordable (job_task dec args mvnw environ (fst p) (snd p))"
    and "0 < arg_jobs args" and "\<not> arg_list args" and "specs \<noteq> []"
    and "length specs < fuel"
  obtains out where
    "main_async fuel dec relpath args mvnw environ ts te specs completion = Some (Inr out)"
    "final_results out = own_entries dec args mvnw environ ts te specs"
  using main_async_total[OF assms, of relpath ts te] by simp

lemma main_async_empty:
  "\<not> arg_list args \<Longrightarrow>
     main_async fuel dec relpath args mvnw environ ts te [] completion =
       Some (Inr \<lparr>rc = 1, final_results = [], report_json = None\<rparr>)"
  by (simp add: main_async_def)

lemma count_status_zero:
  "count_status v results = 0 \<longleftrightarrow> (\<forall>p \<in> set results. status (snd p) \<noteq> v)"
  by (auto simp: count_status_def filter_empty_conv)

text \<open>
  The value \<open>main_async\<close> returns from a run (not from the listing mode), when it
  returns: 1 if there is no execution; otherwise 0 exactly when every entry of the
  results dictionary has the status \<open>passed\<close>, and else 2, with an entry of the status
  \<open>failed\<close>.
\<close>

lemma main_async_return_code:
  assumes "main_async fuel dec relpath args mvnw environ ts te specs completion = Some (Inr out)"
    and "\<not> arg_list args"
  shows "(specs = [] \<longrightarrow> rc out = 1) \<and>
     (specs \<noteq> [] \<longrightarrow>
        (rc out = 0 \<longleftrightarrow> (\<forall>p \<in> set (final_results out). status (snd p) = ''passed'')) \<and>
        (rc out \<noteq> 0 \<longrightarrow>
           rc out = 2 \<and> (\<exists>p \<in> set (final_results out). status (snd p) = ''failed'')))"
proof -
  have a: "rc out = 1" if "specs = []"
  proof -
    from that assms have "out = \<lparr>rc = 1, final_results = [], report_json = None\<rparr>"
      by (simp add: main_async_empty)
    then show ?thesis by simp
  qed
  have b: "(rc out = 0 \<longleftrightarrow> (\<forall>p \<in> set (final_results out). status (snd p) = ''passed'')) \<and>
        (rc out \<noteq> 0 \<longrightarrow>
           rc out = 2 \<and> (\<exists>p \<in> set (final_results out). status (snd p) = ''failed''))"
    if "specs \<noteq> []"
  proof -
    from main_async_returns[OF assms that]
    have st: "\<forall>p \<in> set (final_results out). settled (snd p)"
      and r: "rc out = (if count_status ''failed'' (final_results out) = 0 then 0 else 2)"
      by simp_all
    from st have "(\<forall>p \<in> set (final_results out). status (snd p) \<noteq> ''failed'') \<longleftrightarrow>
        (\<forall>p \<in> set (final_results out). status (snd p) = ''passed'')"
      by (auto simp: settled_def)
    with r show ?thesis
      by (auto simp: count_status_zero split: if_splits)
  qed
  from a b show ?thesis by blast
qed

lemma fresh_start: "work (fs (job_start r fresh)) = None" "job_dir (fs (job_start r fresh)) = False"
  "spawned (job_start r fresh) = []" "status_trace (job_start r fresh) = []"
  by (simp_all add: job_start_def fresh_def)

lemma before_examples:
  "before env_pass = fresh" "before env_compile_fails = fresh" "before env_run_fails = fresh"
  "before env_copy_breaks = fresh" "before env_unreadable = fresh" "before env_cancelled = fresh"
  by (simp_all add: env_pass_def env_compile_fails_def env_run_fails_def env_copy_breaks_def
        env_unreadable_def env_cancelled_def)

lemma task_env_pass:
  "fst (job_task dec args mvnw environ e env_pass) = None"
  "status (result (snd (job_task dec args mvnw environ e env_pass))) = ''passed''"
proof -
  have o: "job_outline (work (fs (job_start (new_result (arg_out_dir args) e) (before env_pass))) \<noteq> None)
      env_pass = (None, [''queued'', ''running'', ''passed'', ''running'', ''passed''], 2, Some 0)"
    by (simp add: before_examples fresh_start outline_env_pass)
  note R = run_job_outline[OF o, of dec "arg_base_dir args" mvnw e "arg_duration args" environ
      "\<not> arg_no_batch args" "arg_rss_limit_mb args" "arg_xmx_mb args"]
  from R show "fst (job_task dec args mvnw environ e env_pass) = None"
    by (simp add: job_task_def)
  from R show "status (result (snd (job_task dec args mvnw environ e env_pass))) = ''passed''"
    by (simp add: job_task_def)
qed

lemma task_env_run_fails:
  "fst (job_task dec args mvnw environ e env_run_fails) = None"
  "status (result (snd (job_task dec args mvnw environ e env_run_fails))) = ''failed''"
proof -
  have "job_outline False env_run_fails =
      (None, [''queued'', ''running'', ''passed'', ''running'', ''failed''], 2, Some 1)"
    by (simp add: job_outline_def env_run_fails_def env_pass_def example_lines lines_read_id)
  then have o: "job_outline (work (fs (job_start (new_result (arg_out_dir args) e) (before env_run_fails))) \<noteq> None)
      env_run_fails = (None, [''queued'', ''running'', ''passed'', ''running'', ''failed''], 2, Some 1)"
    by (simp add: before_examples fresh_start)
  note R = run_job_outline[OF o, of dec "arg_base_dir args" mvnw e "arg_duration args" environ
      "\<not> arg_no_batch args" "arg_rss_limit_mb args" "arg_xmx_mb args"]
  from R show "fst (job_task dec args mvnw environ e env_run_fails) = None"
    by (simp add: job_task_def)
  from R show "status (result (snd (job_task dec args mvnw environ e env_run_fails))) = ''failed''"
    by (simp add: job_task_def)
qed

lemma recordable_returned: "fst t = None \<Longrightarrow> recordable t"
  by (simp add: recordable_def)

lemma ids_examples:
  "execution_id exec_a = ''A''" "execution_id exec_b = ''B''" "execution_id exec_c = ''C''"
  by (simp_all add: exec_a_def exec_b_def exec_c_def)

lemma args_example_simps:
  "arg_jobs args_example = 2" "\<not> arg_list args_example"
  "arg_out_dir args_example = ''/repo/fuzz-out''"
  by (simp_all add: args_example_def)

lemma main_async_return_code_examples:
  "map_option (map_sum id rc)
     (main_async 3 (\<lambda>l. l) (\<lambda>p b. p) args_example ''/repo/mvnw'' Map.empty 0 9
        [(exec_a, env_pass), (exec_b, env_run_fails)] [''B'', ''A'']) = Some (Inr 2) \<and>
   map_option (map_sum id rc)
     (main_async 3 (\<lambda>l. l) (\<lambda>p b. p) args_example ''/repo/mvnw'' Map.empty 0 9
        [(exec_a, env_pass), (exec_b, env_pass)] [''B'', ''A'']) = Some (Inr 0) \<and>
   map_option (map_sum id rc)
     (main_async 3 (\<lambda>l. l) (\<lambda>p b. p) args_example ''/repo/mvnw'' Map.empty 0 9 [] []) = Some (Inr 1)"
proof (intro conjI)
  let ?s1 = "[(exec_a, env_pass), (exec_b, env_run_fails)]"
  obtain out where m: "main_async 3 (\<lambda>l. l) (\<lambda>p b. p) args_example ''/repo/mvnw'' Map.empty 0 9
        ?s1 [''B'', ''A''] = Some (Inr out)"
    and f: "final_results out = own_entries (\<lambda>l. l) args_example ''/repo/mvnw'' Map.empty 0 9 ?s1"
    by (rule main_async_total_ex[of ?s1 "[''B'', ''A'']" "\<lambda>l. l" args_example "''/repo/mvnw''"
          Map.empty 3 "\<lambda>p b. p" 0 9])
       (simp_all add: ids_examples args_example_simps recordable_returned task_env_pass task_env_run_fails)
  have "\<not> (\<forall>p \<in> set (final_results out). status (snd p) = ''passed'')"
    by (simp add: f own_entries_def task_entry_def task_env_pass task_env_run_fails)
  with main_async_return_code[OF m args_example_simps(2)] have "rc out = 2" by auto
  with m show "map_option (map_sum id rc)
     (main_async 3 (\<lambda>l. l) (\<lambda>p b. p) args_example ''/repo/mvnw'' Map.empty 0 9
        ?s1 [''B'', ''A'']) = Some (Inr 2)" by simp
next
  let ?s2 = "[(exec_a, env_pass), (exec_b, env_pass)]"
  obtain out where m: "main_async 3 (\<lambda>l. l) (\<lambda>p b. p) args_example ''/repo/mvnw'' Map.empty 0 9
        ?s2 [''B'', ''A''] = Some (Inr out)"
    and f: "final_results out = own_entries (\<lambda>l. l) args_example ''/repo/mvnw'' Map.empty 0 9 ?s2"
    by (rule main_async_total_ex[of ?s2 "[''B'', ''A'']" "\<lambda>l. l" args_example "''/repo/mvnw''"
          Map.empty 3 "\<lambda>p b. p" 0 9])
       (simp_all add: ids_examples args_example_simps recordable_returned task_env_pass)
  have "\<forall>p \<in> set (final_results out). status (snd p) = ''passed''"
    by (simp add: f own_entries_def task_entry_def task_env_pass)
  with main_async_return_code[OF m args_example_simps(2)] have "rc out = 0" by auto
  with m show "map_option (map_sum id rc)
     (main_async 3 (\<lambda>l. l) (\<lambda>p b. p) args_example ''/repo/mvnw'' Map.empty 0 9
        ?s2 [''B'', ''A'']) = Some (Inr 0)" by simp
next
  have m: "main_async 3 (\<lambda>l. l) (\<lambda>p b. p) args_example ''/repo/mvnw'' Map.empty 0 9 [] [] =
      Some (Inr \<lparr>rc = 1, final_results = [], report_json = None\<rparr>)"
    by (simp add: main_async_empty args_example_simps)
  from main_async_return_code[OF m args_example_simps(2)]
  have "rc \<lparr>rc = 1, final_results = [], report_json = None\<rparr> = 1" by simp
  with m show "map_option (map_sum id rc)
     (main_async 3 (\<lambda>l. l) (\<lambda>p b. p) args_example ''/repo/mvnw'' Map.empty 0 9 [] []) = Some (Inr 1)"
    by simp
qed

lemma job_task_copy_raises:
  assumes "work (before jenv) = None" and "copy jenv = CopyRaises ex partial"
  shows "fst (job_task dec args mvnw environ e jenv) = Some ex"
    and "spawned (snd (job_task dec args mvnw environ e jenv)) = []"
    and "status_trace (snd (job_task dec args mvnw environ e jenv)) = [''queued'']"
    and "job_dir (fs (snd (job_task dec args mvnw environ e jenv))) =
           (job_dir (before jenv) \<or> partial \<noteq> None)"
proof -
  have w: "work (fs (job_start (new_result (arg_out_dir args) e) (before jenv))) = None"
    using assms(1) by (simp add: job_start_def)
  note R = run_job_copy_raises[OF w assms(2), of dec "arg_base_dir args" mvnw e "arg_duration args"
      environ "\<not> arg_no_batch args" "arg_rss_limit_mb args" "arg_xmx_mb args"]
  show "fst (job_task dec args mvnw environ e jenv) = Some ex"
    unfolding job_task_def R by simp
  show "spawned (snd (job_task dec args mvnw environ e jenv)) = []"
    unfolding job_task_def R by (simp add: set_status_def job_start_def)
  show "status_trace (snd (job_task dec args mvnw environ e jenv)) = [''queued'']"
    unfolding job_task_def R by (simp add: set_status_def job_start_def)
  show "job_dir (fs (snd (job_task dec args mvnw environ e jenv))) =
           (job_dir (before jenv) \<or> partial \<noteq> None)"
    unfolding job_task_def R by (simp add: set_status_def job_start_def)
qed







lemma drain_step_raises:
  assumes "tasks \<noteq> []" and "find (\<lambda>k. k \<in> set (map fst tasks)) completion = Some k"
    and "map_of tasks k = Some t"
    and "handle_done outd ts te execs k t (tasks, results) = Inl ex"
  shows "drain (Suc n) outd ts te execs completion (tasks, results) = Some (Inl ex)"
  using assms by simp

lemma handle_done_not_exception:
  "fst t = Some ex \<Longrightarrow> \<not> is_Exception ex \<Longrightarrow> handle_done outd ts te execs k t st = Inl ex"
  by (cases t) (simp add: handle_done_def)

lemma handle_done_no_directory:
  "fst t = Some ex \<Longrightarrow> is_Exception ex \<Longrightarrow> find (\<lambda>ev. execution_id ev = k) execs = Some e \<Longrightarrow>
     \<not> job_dir (fs (snd t)) \<Longrightarrow> handle_done outd ts te execs k t st = Inl FileNotFoundError"
  by (cases t) (simp add: handle_done_def)

lemma task_env_unreadable:
  "fst (job_task dec args mvnw environ e env_unreadable) = Some OSError"
  "\<not> job_dir (fs (snd (job_task dec args mvnw environ e env_unreadable)))"
proof -
  have c: "work (before env_unreadable) = None" "copy env_unreadable = CopyRaises OSError None"
    by (simp_all add: env_unreadable_def env_pass_def fresh_def)
  from job_task_copy_raises(1)[OF c]
  show "fst (job_task dec args mvnw environ e env_unreadable) = Some OSError" .
  from job_task_copy_raises(4)[OF c, of dec args mvnw environ e]
  show "\<not> job_dir (fs (snd (job_task dec args mvnw environ e env_unreadable)))"
    by (simp add: before_examples fresh_def)
qed

lemma task_env_cancelled:
  "fst (job_task dec args mvnw environ e env_cancelled) = Some CancelledError"
proof -
  have "job_outline False env_cancelled =
      (Some CancelledError, [''queued'', ''running'', ''passed'', ''running'', ''cancelled''], 2, Some 0)"
    by (simp add: job_outline_def env_cancelled_def env_pass_def example_lines lines_read_id)
  then have o: "job_outline (work (fs (job_start (new_result (arg_out_dir args) e) (before env_cancelled))) \<noteq> None)
      env_cancelled =
      (Some CancelledError, [''queued'', ''running'', ''passed'', ''running'', ''cancelled''], 2, Some 0)"
    by (simp add: before_examples fresh_start)
  from run_job_outline[OF o, of dec "arg_base_dir args" mvnw e "arg_duration args" environ
      "\<not> arg_no_batch args" "arg_rss_limit_mb args" "arg_xmx_mb args"]
  show ?thesis by (simp add: job_task_def)
qed

lemma run_unreadable_raises:
  "main_async 4 (\<lambda>l. l) (\<lambda>p b. p) args_example ''/repo/mvnw'' Map.empty 0 9
     [(exec_a, env_pass), (exec_b, env_unreadable), (exec_c, env_pass)] [''B'', ''A'', ''C''] =
     Some (Inl FileNotFoundError)"
proof -
  let ?s = "[(exec_a, env_pass), (exec_b, env_unreadable), (exec_c, env_pass)]"
  let ?tasks = "map (\<lambda>p. (execution_id (fst p),
      job_task (\<lambda>l. l) args_example ''/repo/mvnw'' Map.empty (fst p) (snd p))) ?s"
  let ?results = "map (\<lambda>e. (execution_id e, new_result (arg_out_dir args_example) e)) (map fst ?s)"
  have d: "distinct (map (\<lambda>p. execution_id (fst p)) ?s)" by (simp add: ids_examples)
  have h: "handle_done (arg_out_dir args_example) 0 9 (map fst ?s) ''B''
      (job_task (\<lambda>l. l) args_example ''/repo/mvnw'' Map.empty exec_b env_unreadable)
      (?tasks, ?results) = Inl FileNotFoundError"
    by (rule handle_done_no_directory[where e = exec_b and ex = OSError])
       (simp_all add: task_env_unreadable is_Exception_def ids_examples)
  have "drain (Suc 3) (arg_out_dir args_example) 0 9 (map fst ?s) [''B'', ''A'', ''C'']
      (?tasks, ?results) = Some (Inl FileNotFoundError)"
    by (rule drain_step_raises[OF _ _ _ h]) (simp_all add: ids_examples)
  then have dr: "drain 4 (arg_out_dir args_example) 0 9 (map fst ?s) [''B'', ''A'', ''C'']
      (?tasks, ?results) = Some (Inl FileNotFoundError)"
    by (simp add: numeral_eq_Suc)
  have md: "main_async 4 (\<lambda>l. l) (\<lambda>p b. p) args_example ''/repo/mvnw'' Map.empty 0 9
     ?s [''B'', ''A'', ''C''] =
     (case drain 4 (arg_out_dir args_example) 0 9 (map fst ?s) [''B'', ''A'', ''C'']
             (?tasks, ?results) of
        None \<Rightarrow> None
      | Some (Inl ex) \<Rightarrow> Some (Inl ex)
      | Some (Inr results) \<Rightarrow>
          Some (Inr \<lparr>rc = (if count_status ''failed'' results = 0 then 0 else 2),
                     final_results = results,
                     report_json = Some (make_report_json (\<lambda>p b. p) 9 results ''lz4-java''
                        (arg_profile args_example) (arg_duration args_example)
                        (arg_jobs args_example) ''/repo/mvnw''
                        (arg_out_dir args_example) (arg_base_dir args_example))\<rparr>))"
    by (rule main_async_drain[OF d]) (simp_all add: args_example_simps)
  show ?thesis
    unfolding md dr by simp
qed

lemma run_cancelled_raises:
  "main_async 4 (\<lambda>l. l) (\<lambda>p b. p) args_example ''/repo/mvnw'' Map.empty 0 9
     [(exec_a, env_pass), (exec_b, env_cancelled), (exec_c, env_pass)] [''B'', ''A'', ''C''] =
     Some (Inl CancelledError)"
proof -
  let ?s = "[(exec_a, env_pass), (exec_b, env_cancelled), (exec_c, env_pass)]"
  let ?tasks = "map (\<lambda>p. (execution_id (fst p),
      job_task (\<lambda>l. l) args_example ''/repo/mvnw'' Map.empty (fst p) (snd p))) ?s"
  let ?results = "map (\<lambda>e. (execution_id e, new_result (arg_out_dir args_example) e)) (map fst ?s)"
  have d: "distinct (map (\<lambda>p. execution_id (fst p)) ?s)" by (simp add: ids_examples)
  have h: "handle_done (arg_out_dir args_example) 0 9 (map fst ?s) ''B''
      (job_task (\<lambda>l. l) args_example ''/repo/mvnw'' Map.empty exec_b env_cancelled)
      (?tasks, ?results) = Inl CancelledError"
    by (rule handle_done_not_exception) (simp_all add: task_env_cancelled is_Exception_def)
  have "drain (Suc 3) (arg_out_dir args_example) 0 9 (map fst ?s) [''B'', ''A'', ''C'']
      (?tasks, ?results) = Some (Inl CancelledError)"
    by (rule drain_step_raises[OF _ _ _ h]) (simp_all add: ids_examples)
  then have dr: "drain 4 (arg_out_dir args_example) 0 9 (map fst ?s) [''B'', ''A'', ''C'']
      (?tasks, ?results) = Some (Inl CancelledError)"
    by (simp add: numeral_eq_Suc)
  have md: "main_async 4 (\<lambda>l. l) (\<lambda>p b. p) args_example ''/repo/mvnw'' Map.empty 0 9
     ?s [''B'', ''A'', ''C''] =
     (case drain 4 (arg_out_dir args_example) 0 9 (map fst ?s) [''B'', ''A'', ''C'']
             (?tasks, ?results) of
        None \<Rightarrow> None
      | Some (Inl ex) \<Rightarrow> Some (Inl ex)
      | Some (Inr results) \<Rightarrow>
          Some (Inr \<lparr>rc = (if count_status ''failed'' results = 0 then 0 else 2),
                     final_results = results,
                     report_json = Some (make_report_json (\<lambda>p b. p) 9 results ''lz4-java''
                        (arg_profile args_example) (arg_duration args_example)
                        (arg_jobs args_example) ''/repo/mvnw''
                        (arg_out_dir args_example) (arg_base_dir args_example))\<rparr>))"
    by (rule main_async_drain[OF d]) (simp_all add: args_example_simps)
  show ?thesis
    unfolding md dr by simp
qed

lemma exit_status_of_code:
  "map_option (map_sum id rc) r = Some (Inr k) \<Longrightarrow> exit_status r = Some k"
  by (cases r) (auto simp: exit_status_def split: sum.splits)

text \<open>
  Claim C1 at two failing inputs: three executions with distinct ids, of which \<open>B\<close>
  finishes first. In the first run the copy of \<open>B\<close>'s workspace raises before the
  job's directory exists, as for a base directory that cannot be listed: the handler
  of the drain loop raises \<open>FileNotFoundError\<close> when it opens the job's log, and
  \<open>main_async\<close> ends with that exception. In the second run the task of \<open>B\<close> is
  cancelled during its run phase: \<open>except Exception\<close> does not catch
  \<open>CancelledError\<close>, and \<open>main_async\<close> ends with it. In both runs no results
  dictionary and no report are produced, for any of the three executions.
\<close>

theorem run_without_results:
  "main_async 4 (\<lambda>l. l) (\<lambda>p b. p) args_example ''/repo/mvnw'' Map.empty 0 9
     [(exec_a, env_pass), (exec_b, env_unreadable), (exec_c, env_pass)] [''B'', ''A'', ''C''] =
     Some (Inl FileNotFoundError) \<and>
   main_async 4 (\<lambda>l. l) (\<lambda>p b. p) args_example ''/repo/mvnw'' Map.empty 0 9
     [(exec_a, env_pass), (exec_b, env_cancelled), (exec_c, env_pass)] [''B'', ''A'', ''C''] =
     Some (Inl CancelledError)"
  by (rule conjI[OF run_unreadable_raises run_cancelled_raises])

text \<open>
  Claim C3 at a failing input. Of three executions the copy of \<open>B\<close>'s workspace raises
  before the job's directory exists, and \<open>B\<close> finishes first: the job has failed, the
  handler of the drain loop raises, the exception leaves \<open>main_async\<close> and \<open>main\<close>,
  and the process ends with the exit status 1. That is the exit status of a run that
  found no executions, so the two are not distinguished; a run whose failed job is
  recorded ends with 2. The same holds when the task of \<open>B\<close> is cancelled.
\<close>

theorem failure_exits_as_no_executions:
  "fst (job_task (\<lambda>l. l) args_example ''/repo/mvnw'' Map.empty exec_b env_unreadable) = Some OSError \<and>
   exit_status
     (main_async 4 (\<lambda>l. l) (\<lambda>p b. p) args_example ''/repo/mvnw'' Map.empty 0 9
        [(exec_a, env_pass), (exec_b, env_unreadable), (exec_c, env_pass)] [''B'', ''A'', ''C'']) = Some 1 \<and>
   exit_status
     (main_async 4 (\<lambda>l. l) (\<lambda>p b. p) args_example ''/repo/mvnw'' Map.empty 0 9
        [(exec_a, env_pass), (exec_b, env_cancelled), (exec_c, env_pass)] [''B'', ''A'', ''C'']) = Some 1 \<and>
   exit_status
     (main_async 4 (\<lambda>l. l) (\<lambda>p b. p) args_example ''/repo/mvnw'' Map.empty 0 9 [] []) = Some 1 \<and>
   exit_status
     (main_async 3 (\<lambda>l. l) (\<lambda>p b. p) args_example ''/repo/mvnw'' Map.empty 0 9
        [(exec_a, env_pass), (exec_b, env_run_fails)] [''B'', ''A'']) = Some 2 \<and>
   exit_status
     (main_async 3 (\<lambda>l. l) (\<lambda>p b. p) args_example ''/repo/mvnw'' Map.empty 0 9
        [(exec_a, env_pass), (exec_b, env_pass)] [''B'', ''A'']) = Some 0"
proof (intro conjI)
  show "fst (job_task (\<lambda>l. l) args_example ''/repo/mvnw'' Map.empty exec_b env_unreadable) = Some OSError"
    by (rule task_env_unreadable)
  show "exit_status
     (main_async 4 (\<lambda>l. l) (\<lambda>p b. p) args_example ''/repo/mvnw'' Map.empty 0 9
        [(exec_a, env_pass), (exec_b, env_unreadable), (exec_c, env_pass)] [''B'', ''A'', ''C'']) = Some 1"
    unfolding run_unreadable_raises by (simp add: exit_status_def)
  show "exit_status
     (main_async 4 (\<lambda>l. l) (\<lambda>p b. p) args_example ''/repo/mvnw'' Map.empty 0 9
        [(exec_a, env_pass), (exec_b, env_cancelled), (exec_c, env_pass)] [''B'', ''A'', ''C'']) = Some 1"
    unfolding run_cancelled_raises by (simp add: exit_status_def)
  show "exit_status
     (main_async 4 (\<lambda>l. l) (\<lambda>p b. p) args_example ''/repo/mvnw'' Map.empty 0 9 [] []) = Some 1"
    by (simp add: main_async_empty args_example_simps exit_status_def)
  show "exit_status
     (main_async 3 (\<lambda>l. l) (\<lambda>p b. p) args_example ''/repo/mvnw'' Map.empty 0 9
        [(exec_a, env_pass), (exec_b, env_run_fails)] [''B'', ''A'']) = Some 2"
    by (rule exit_status_of_code) (rule main_async_return_code_examples[THEN conjunct1])
  show "exit_status
     (main_async 3 (\<lambda>l. l) (\<lambda>p b. p) args_example ''/repo/mvnw'' Map.empty 0 9
        [(exec_a, env_pass), (exec_b, env_pass)] [''B'', ''A'']) = Some 0"
    by (rule exit_status_of_code) (rule main_async_return_code_examples[THEN conjunct2, THEN conjunct1])
qed

end
